theory Spec2Isabelle
  imports Main "HOL-Library.Word" "HOL-Library.Multiset"
begin

section \<open>The S3 communications module (H5FDs3comms.c)\<close>

text \<open>
  A C string is represented by the list of its bytes before the terminating NUL, and a
  pointer that may be NULL by an \<open>option\<close>. Every function of the module returns
  \<open>SUCCEED\<close> or \<open>FAIL\<close>; the model keeps, with \<open>FAIL\<close>, which
  \<open>HGOTO_ERROR\<close> of the source was taken.
\<close>

subsection \<open>Results and the C library\<close>

datatype error =
    NullName            \<comment> \<open>"unable to operate on null name."\<close>
  | NoSpace string      \<comment> \<open>H5MM_malloc returned NULL for the named variable\<close>
  | RemoveFromEmpty     \<comment> \<open>"trying to remove node from empty list"\<close>
  | RemoveBeforeHead    \<comment> \<open>"trying to remove a node 'before' head"\<close>
  | RemoveAbsent        \<comment> \<open>"trying to remove absent node"\<close>
  | InvalidUrlString    \<comment> \<open>"invalid url string"\<close>
  | SchemeNoColon       \<comment> \<open>"invalid SCHEME consruction: probably not URL"\<close>
  | SchemeInvalid       \<comment> \<open>"invalid SCHEME consruction"\<close>
  | HostEmpty           \<comment> \<open>"HOST substring cannot be empty"\<close>
  | HostLength          \<comment> \<open>"problem with length of HOST substring"\<close>
  | PortEmpty           \<comment> \<open>"PORT element cannot be empty"\<close>
  | PortLength          \<comment> \<open>"problem with length of PORT substring"\<close>
  | PortNotDecimal      \<comment> \<open>"PORT is not a decimal string"\<close>
  | PathLength          \<comment> \<open>"problem with length of PATH substring"\<close>
  | QueryEmpty          \<comment> \<open>"QUERY cannot be empty"\<close>
  | QueryLength         \<comment> \<open>"problem with length of QUERY substring"\<close>
  | NullArgument string \<comment> \<open>a pointer argument or handle field that must not be NULL is NULL\<close>
  | ReadPastEof         \<comment> \<open>"unable to read past EoF"\<close>
  | CurlSetopt string   \<comment> \<open>"error while setting CURL option (...)"\<close>
  | Iso8601Format       \<comment> \<open>"could not format ISO8601 time."\<close>
  | HeadersList         \<comment> \<open>"problem building headers list."\<close>
  | Placeholder         \<comment> \<open>"(placeholder flags)": a callee returned FAIL\<close>
  | SlistAppend         \<comment> \<open>"could not append header to curl slist."\<close>
  | PerformFailed       \<comment> \<open>"problem while performing request."\<close>
  | HexString           \<comment> \<open>"could not create hex string" / "could not convert to hex string."\<close>

datatype herr_t = SUCCEED | FAIL error

text \<open>
  A call either returns, or stops in \<open>abort()\<close> at an \<open>HDassert\<close> that does not hold,
  or leaves the behaviour that C defines (it reads or writes outside an array), or
  runs forever.
\<close>

datatype 'a outcome = Returns 'a | Aborts | Undefined | Diverges

fun bind_outcome :: "'a outcome \<Rightarrow> ('a \<Rightarrow> 'b outcome) \<Rightarrow> 'b outcome" where
  "bind_outcome (Returns x) f = f x"
| "bind_outcome Aborts f = Aborts"
| "bind_outcome Undefined f = Undefined"
| "bind_outcome Diverges f = Diverges"

text \<open>
  Whether \<open>H5MM_malloc\<close> returns a block for the allocation that the source assigns
  to the variable of the given name.
\<close>

type_synonym allocator = "string \<Rightarrow> bool"

text \<open>\<open>tolower\<close> in the C locale: the 26 upper-case ASCII letters move, every other byte stays.\<close>

definition tolower :: "char \<Rightarrow> char" where
  "tolower c =
     (if (65::nat) \<le> of_char c \<and> of_char c \<le> (90::nat) then char_of (of_char c + (32::nat)) else c)"

text \<open>
  \<open>strcmp\<close> compares byte by byte, as unsigned values, and a proper prefix is smaller.
  C fixes only the sign of the result.
\<close>

fun strcmp :: "string \<Rightarrow> string \<Rightarrow> int" where
  "strcmp [] [] = 0"
| "strcmp [] (y # ys) = - 1"
| "strcmp (x # xs) [] = 1"
| "strcmp (x # xs) (y # ys) =
     (if x = y then strcmp xs ys
      else if (of_char x :: nat) < of_char y then - 1 else 1)"

subsection \<open>Header list: \<open>H5FD_s3comms_hrb_node_set\<close>\<close>

text \<open>
  \<open>hrb_node_t\<close> without its \<open>magic\<close> tag and its \<open>next\<close> pointer: the singly linked
  list that starts at \<open>*L\<close> is the HOL list of its nodes, \<open>NULL\<close> is \<open>[]\<close>.
\<close>

record hrb_node =
  name :: string
  "value" :: string
  cat :: string
  lowername :: string

text \<open>
  The \<open>while (is_looking)\<close> loop. \<open>ptr\<close> is a node whose \<open>lowername\<close> is smaller than
  the one looked for; the argument is the list at \<open>ptr->next\<close> and the result is the
  return value with the list that \<open>ptr->next\<close> points to afterwards.
  \<open>new_node\<close> is the node the caller prepared; \<open>remove\<close> says that \<open>value\<close> is NULL.
  The loop is entered, and moves on, only past a node whose \<open>lowername\<close> is smaller
  than the one looked for, which is what its two assertions ask.
\<close>

fun hrb_node_seek :: "bool \<Rightarrow> hrb_node \<Rightarrow> hrb_node list \<Rightarrow> herr_t \<times> hrb_node list" where
  "hrb_node_seek remove new_node [] =
     (if remove then (FAIL RemoveAbsent, [])
      else (SUCCEED, [new_node]))"
| "hrb_node_seek remove new_node (nxt # rest) =
     (if strcmp (lowername new_node) (lowername nxt) < 0 then
        (if remove then (FAIL RemoveAbsent, nxt # rest)
         else (SUCCEED, new_node # nxt # rest))
      else if strcmp (lowername new_node) (lowername nxt) = 0 then
        (if remove then (SUCCEED, rest)
         else (SUCCEED,
               nxt\<lparr>name := name new_node, value := value new_node, cat := cat new_node\<rparr> # rest))
      else
        (case hrb_node_seek remove new_node rest of
           (r, rest') \<Rightarrow> (r, nxt # rest')))"

text \<open>
  The whole function: the list at \<open>*L\<close> goes in, the return value and the list at \<open>*L\<close>
  afterwards come out. The strings are prepared first (each allocation may fail), then
  the head of the list is examined, then the loop runs.
\<close>

definition hrb_node_set ::
  "allocator \<Rightarrow> hrb_node list \<Rightarrow> string option \<Rightarrow> string option \<Rightarrow> herr_t \<times> hrb_node list" where
  "hrb_node_set mem L name_arg value_arg =
     (case name_arg of
        None \<Rightarrow> (FAIL NullName, L)
      | Some nm \<Rightarrow>
          if value_arg \<noteq> None \<and> \<not> mem ''namecpy'' then (FAIL (NoSpace ''namecpy''), L)
          else if value_arg \<noteq> None \<and> \<not> mem ''valuecpy'' then (FAIL (NoSpace ''valuecpy''), L)
          else if value_arg \<noteq> None \<and> \<not> mem ''nvcat'' then (FAIL (NoSpace ''nvcat''), L)
          else if \<not> mem ''lowername'' then (FAIL (NoSpace ''lowername''), L)
          else if \<not> mem ''new_node'' then (FAIL (NoSpace ''new_node''), L)
          else
            let remove = (value_arg = None);
                v = (case value_arg of None \<Rightarrow> [] | Some s \<Rightarrow> s);
                new_node = \<lparr>name = nm, value = v, cat = nm @ '': '' @ v,
                            lowername = map tolower nm\<rparr>
            in (case L of
                  [] \<Rightarrow> if remove then (FAIL RemoveFromEmpty, L) else (SUCCEED, [new_node])
                | ptr # rest \<Rightarrow>
                    if strcmp (lowername new_node) (lowername ptr) = 0 then
                      (if remove then (SUCCEED, rest)
                       else (SUCCEED,
                             ptr\<lparr>name := nm, value := v, cat := cat new_node\<rparr> # rest))
                    else if strcmp (lowername new_node) (lowername ptr) < 0 then
                      (if remove then (FAIL RemoveBeforeHead, L)
                       else (SUCCEED, new_node # ptr # rest))
                    else
                      (case hrb_node_seek remove new_node rest of
                         (r, rest') \<Rightarrow> (r, ptr # rest'))))"


text \<open>
  A series of calls on one list pointer, each with its own allocator: the return values
  in order, and the list after the last call.
\<close>

type_synonym set_call = "allocator \<times> string option \<times> string option"

fun hrb_node_set_all :: "hrb_node list \<Rightarrow> set_call list \<Rightarrow> herr_t list \<times> hrb_node list" where
  "hrb_node_set_all L [] = ([], L)"
| "hrb_node_set_all L ((mem, name_arg, value_arg) # calls) =
     (case hrb_node_set mem L name_arg value_arg of
        (r, L') \<Rightarrow> (case hrb_node_set_all L' calls of (rs, L'') \<Rightarrow> (r # rs, L'')))"

text \<open>The order of the list: \<open>strcmp\<close> on the \<open>lowername\<close> fields.\<close>

definition hrb_less :: "hrb_node \<Rightarrow> hrb_node \<Rightarrow> bool" where
  "hrb_less a b \<longleftrightarrow> strcmp (lowername a) (lowername b) < 0"

text \<open>A node whose \<open>cat\<close> and \<open>lowername\<close> agree with its \<open>name\<close> and \<open>value\<close>.\<close>

definition hrb_node_ok :: "hrb_node \<Rightarrow> bool" where
  "hrb_node_ok n \<longleftrightarrow> cat n = name n @ '': '' @ value n \<and> lowername n = map tolower (name n)"

definition hrb_list_inv :: "hrb_node list \<Rightarrow> bool" where
  "hrb_list_inv L \<longleftrightarrow>
     distinct (map lowername L) \<and> sorted_wrt hrb_less L \<and> list_all hrb_node_ok L"

text \<open>An allocator that never fails.\<close>

definition mem_ok :: allocator where
  "mem_ok v = True"

subsection \<open>URL parser: \<open>H5FD_s3comms_parse_url\<close>\<close>

text \<open>\<open>isalpha\<close>, \<open>isdigit\<close> and \<open>isspace\<close> in the C locale.\<close>

definition isalpha :: "char \<Rightarrow> bool" where
  "isalpha c \<longleftrightarrow>
     ((65::nat) \<le> of_char c \<and> of_char c \<le> (90::nat)) \<or>
     ((97::nat) \<le> of_char c \<and> of_char c \<le> (122::nat))"

definition isdigit :: "char \<Rightarrow> bool" where
  "isdigit c \<longleftrightarrow> (48::nat) \<le> of_char c \<and> of_char c \<le> (57::nat)"

definition isspace :: "char \<Rightarrow> bool" where
  "isspace c \<longleftrightarrow> of_char c = (32::nat) \<or> ((9::nat) \<le> of_char c \<and> of_char c \<le> (13::nat))"

text \<open>\<open>parsed_url_t\<close> without its \<open>magic\<close> tag; a field that is NULL is \<open>None\<close>.\<close>

record parsed_url =
  scheme :: "string option"
  host :: "string option"
  port :: "string option"
  path :: "string option"
  query :: "string option"

text \<open>
  \<open>H5FD_s3comms_free_purl\<close>: the blocks it hands to \<open>H5MM_xfree\<close>, in order, named
  after the field (or, for the structure itself, the variable) that held them.
\<close>

definition free_purl :: "parsed_url option \<Rightarrow> string list" where
  "free_purl purl =
     (case purl of
        None \<Rightarrow> []
      | Some p \<Rightarrow>
          (if scheme p \<noteq> None then [''scheme''] else []) @
          (if host p \<noteq> None then [''host''] else []) @
          (if port p \<noteq> None then [''port''] else []) @
          (if path p \<noteq> None then [''path''] else []) @
          (if query p \<noteq> None then [''query''] else []) @
          [''purl''])"

text \<open>
  What a call of \<open>H5FD_s3comms_parse_url\<close> leaves behind: its return value, the value
  of \<open>*_purl\<close>, the blocks it took from \<open>H5MM_malloc\<close> and the blocks it freed.
\<close>

record parse_url_result =
  ret_value :: herr_t
  purl_out :: "parsed_url option"
  allocated :: "string list"
  released :: "string list"

text \<open>
  The label \<open>done\<close>, reached with \<open>ret_value == FAIL\<close>: the local \<open>purl\<close> is freed
  and \<open>*_purl\<close> keeps the value \<open>slot\<close> it had at the call.
\<close>

definition parse_fail ::
  "error \<Rightarrow> parsed_url option \<Rightarrow> parsed_url option \<Rightarrow> string list \<Rightarrow> parse_url_result outcome" where
  "parse_fail e slot purl al =
     Returns \<lparr>ret_value = FAIL e, purl_out = slot, allocated = al, released = free_purl purl\<rparr>"

text \<open>The end of the function body: \<open>*_purl = purl; ret_value = SUCCEED\<close>.\<close>

definition parse_succeed :: "parsed_url \<Rightarrow> string list \<Rightarrow> parse_url_result outcome" where
  "parse_succeed purl al =
     Returns \<lparr>ret_value = SUCCEED, purl_out = Some purl, allocated = al, released = []\<rparr>"

text \<open>
  The five blocks of the function. In each, \<open>tmpstr\<close> is the rest of the input from the
  working pointer on, \<open>purl\<close> the structure built so far, \<open>al\<close> the blocks allocated so
  far, \<open>urllen\<close> the length of the whole input and \<open>slot\<close> the value of \<open>*_purl\<close>.
\<close>

definition read_query ::
  "allocator \<Rightarrow> parsed_url option \<Rightarrow> parsed_url \<Rightarrow> string list \<Rightarrow> nat \<Rightarrow> string
     \<Rightarrow> parse_url_result outcome" where
  "read_query mem slot purl al urllen tmpstr =
     (case tmpstr of
        [] \<Rightarrow> parse_succeed purl al
      | c # curstr \<Rightarrow>
          if c = CHR ''?'' then
            (if length curstr = 0 then parse_fail QueryEmpty slot (Some purl) al
             else if length curstr > urllen then parse_fail QueryLength slot (Some purl) al
             else if \<not> mem ''query'' then parse_fail (NoSpace ''query'') slot (Some purl) al
             else parse_succeed (purl\<lparr>query := Some curstr\<rparr>) (al @ [''query'']))
          else parse_succeed purl al)"

definition read_path ::
  "allocator \<Rightarrow> parsed_url option \<Rightarrow> parsed_url \<Rightarrow> string list \<Rightarrow> nat \<Rightarrow> string
     \<Rightarrow> parse_url_result outcome" where
  "read_path mem slot purl al urllen tmpstr =
     (case tmpstr of
        [] \<Rightarrow> read_query mem slot purl al urllen tmpstr
      | c # curstr \<Rightarrow>
          if c = CHR ''/'' then
            (let p = takeWhile (\<lambda>x. x \<noteq> CHR ''?'') curstr;
                 tmpstr' = dropWhile (\<lambda>x. x \<noteq> CHR ''?'') curstr
             in if length p > urllen then parse_fail PathLength slot (Some purl) al
                else if length p > 0 then
                  (if \<not> mem ''path'' then parse_fail (NoSpace ''path'') slot (Some purl) al
                   else read_query mem slot (purl\<lparr>path := Some p\<rparr>) (al @ [''path'']) urllen tmpstr')
                else read_query mem slot purl al urllen tmpstr')
          else read_query mem slot purl al urllen tmpstr)"

definition read_port ::
  "allocator \<Rightarrow> parsed_url option \<Rightarrow> parsed_url \<Rightarrow> string list \<Rightarrow> nat \<Rightarrow> string
     \<Rightarrow> parse_url_result outcome" where
  "read_port mem slot purl al urllen tmpstr =
     (case tmpstr of
        [] \<Rightarrow> read_path mem slot purl al urllen tmpstr
      | c # curstr \<Rightarrow>
          if c = CHR '':'' then
            (let p = takeWhile (\<lambda>x. x \<noteq> CHR ''/'' \<and> x \<noteq> CHR ''?'') curstr;
                 tmpstr' = dropWhile (\<lambda>x. x \<noteq> CHR ''/'' \<and> x \<noteq> CHR ''?'') curstr
             in if length p = 0 then parse_fail PortEmpty slot (Some purl) al
                else if length p > urllen then parse_fail PortLength slot (Some purl) al
                else if \<not> list_all isdigit p then parse_fail PortNotDecimal slot (Some purl) al
                else if \<not> mem ''port'' then parse_fail (NoSpace ''port'') slot (Some purl) al
                else read_path mem slot (purl\<lparr>port := Some p\<rparr>) (al @ [''port'']) urllen tmpstr')
          else read_path mem slot purl al urllen tmpstr)"

text \<open>
  The host. In the bracketed case the loop advances until it meets \<open>']'\<close>; its test for
  the end of the string compares the pointer, not the byte, with 0, so without a
  \<open>']'\<close> the loop runs past the terminator.
\<close>

definition read_host ::
  "allocator \<Rightarrow> parsed_url option \<Rightarrow> parsed_url \<Rightarrow> string list \<Rightarrow> nat \<Rightarrow> string
     \<Rightarrow> parse_url_result outcome" where
  "read_host mem slot purl al urllen curstr =
     (if curstr \<noteq> [] \<and> hd curstr = CHR ''['' \<and> CHR '']'' \<notin> set curstr then Undefined
      else
        let h = (if curstr \<noteq> [] \<and> hd curstr = CHR ''[''
                 then takeWhile (\<lambda>x. x \<noteq> CHR '']'') curstr @ '']''
                 else takeWhile (\<lambda>x. x \<noteq> CHR '':'' \<and> x \<noteq> CHR ''/'' \<and> x \<noteq> CHR ''?'') curstr);
            tmpstr = drop (length h) curstr
        in if length h = 0 then parse_fail HostEmpty slot (Some purl) al
           else if length h > urllen then parse_fail HostLength slot (Some purl) al
           else if \<not> mem ''host'' then parse_fail (NoSpace ''host'') slot (Some purl) al
           else read_port mem slot (purl\<lparr>host := Some h\<rparr>) (al @ [''host'']) urllen tmpstr)"

text \<open>
  The whole function. \<open>str\<close> is the argument (\<open>None\<close> for NULL) and \<open>slot\<close> the value of
  \<open>*_purl\<close> at the call. After the scheme the working pointer moves three bytes on from
  the \<open>':'\<close> that \<open>strchr\<close> found (the source's comment: skip "://"), whatever these
  bytes are; with fewer than two bytes after the \<open>':'\<close> it then points past the
  terminator.
\<close>

definition parse_url ::
  "allocator \<Rightarrow> string option \<Rightarrow> parsed_url option \<Rightarrow> parse_url_result outcome" where
  "parse_url mem str slot =
     (case str of
        None \<Rightarrow> parse_fail InvalidUrlString slot None []
      | Some s \<Rightarrow>
          if s = [] then parse_fail InvalidUrlString slot None []
          else if \<not> mem ''purl'' then parse_fail (NoSpace ''purl'') slot None []
          else
            let urllen = length s;
                purl = \<lparr>scheme = None, host = None, port = None, path = None, query = None\<rparr>;
                al = [''purl''];
                sch = takeWhile (\<lambda>x. x \<noteq> CHR '':'') s;
                tmpstr = dropWhile (\<lambda>x. x \<noteq> CHR '':'') s
            in if tmpstr = [] then parse_fail SchemeNoColon slot (Some purl) al
               else if \<not> list_all (\<lambda>c. isalpha c \<or> c = CHR ''+'' \<or> c = CHR ''-'' \<or> c = CHR ''.'') sch
                 then parse_fail SchemeInvalid slot (Some purl) al
               else if \<not> mem ''scheme'' then parse_fail (NoSpace ''scheme'') slot (Some purl) al
               else if length tmpstr < 3 then Undefined
               else read_host mem slot (purl\<lparr>scheme := Some (map tolower sch)\<rparr>)
                      (al @ [''scheme'']) urllen (drop 3 tmpstr))"

subsection \<open>Signer: canonical request, trim, hex, signing key\<close>

text \<open>
  \<open>hrb_t\<close> without its \<open>magic\<close> tag. \<open>first_header\<close> is the header list the request
  points to.
\<close>

record hrb_t =
  verb :: string
  version :: string
  resource :: string
  body :: "string option"
  body_len :: nat
  first_header :: "hrb_node list"

text \<open>\<open>H5FD_s3comms_hrb_init_request\<close>; the result is \<open>None\<close> where the source returns NULL.\<close>

definition hrb_init_request ::
  "allocator \<Rightarrow> string option \<Rightarrow> string option \<Rightarrow> string option \<Rightarrow> hrb_t option" where
  "hrb_init_request mem verb_arg resource_arg http_version_arg =
     (case resource_arg of
        None \<Rightarrow> None
      | Some r \<Rightarrow>
          if \<not> mem ''request'' then None
          else if \<not> mem ''res'' then None
          else if \<not> mem ''verb'' then None
          else if \<not> mem ''vrsn'' then None
          else Some \<lparr>verb = (case verb_arg of None \<Rightarrow> ''GET'' | Some v \<Rightarrow> v),
                     version = (case http_version_arg of None \<Rightarrow> ''HTTP/1.1'' | Some v \<Rightarrow> v),
                     resource = (if r \<noteq> [] \<and> hd r = CHR ''/'' then r else ''/'' @ r),
                     body = None, body_len = 0, first_header = []\<rparr>)"

text \<open>
  Modelled from the spec: the macro \<open>EMPTY_SHA256\<close> is defined in H5FDs3comms.h, which is
  not among the sources; the spec gives its value, the SHA-256 of the empty payload in
  lower-case hexadecimal.
\<close>

definition EMPTY_SHA256 :: string where
  "EMPTY_SHA256 = ''e3b0c44298fc1c149afbf4c8996fb92427ae41e4649b934ca495991b7852b855''"

text \<open>
  The loop of \<open>H5FD_s3comms_aws_canonical_request\<close> over the header nodes. The pair is
  the content of \<open>canonical_request_dest\<close> and of \<open>signed_headers_dest\<close>. Each line is
  first printed into the local \<open>tmpstr[256]\<close>, with its terminator.
\<close>

fun canonical_headers :: "hrb_node list \<Rightarrow> string \<times> string \<Rightarrow> (string \<times> string) outcome" where
  "canonical_headers [] acc = Returns acc"
| "canonical_headers (node # rest) (creq, sh) =
     (if length (value node) + length (lowername node) + 2 + 1 > 256 then Undefined
      else canonical_headers rest
             (creq @ lowername node @ '':'' @ value node @ [CHR 0x0A],
              sh @ lowername node @ '';''))"

text \<open>
  The function. The two destinations are given by their content at the call (\<open>None\<close> for
  a NULL pointer): the canonical request is written from the start of its buffer, the
  signed headers are appended with \<open>strcat\<close> to what their buffer holds. The result is
  the return value and the content of the two buffers at the return. Removing the last
  ';' writes at index \<open>strlen(signed_headers_dest) - 1\<close>, which is outside the buffer
  when the string is empty.
\<close>

definition aws_canonical_request ::
  "string option \<Rightarrow> string option \<Rightarrow> hrb_t option
     \<Rightarrow> (herr_t \<times> string option \<times> string option) outcome" where
  "aws_canonical_request canonical_request_dest signed_headers_dest http_request =
     (case http_request of
        None \<Rightarrow> Returns (FAIL (NullArgument ''http_request''), canonical_request_dest, signed_headers_dest)
      | Some rq \<Rightarrow>
          (case canonical_request_dest of
             None \<Rightarrow> Returns (FAIL (NullArgument ''canonical_request_dest''),
                              canonical_request_dest, signed_headers_dest)
           | Some _ \<Rightarrow>
               (case signed_headers_dest of
                  None \<Rightarrow> Returns (FAIL (NullArgument ''signed_headers_dest''),
                                   canonical_request_dest, signed_headers_dest)
                | Some sh0 \<Rightarrow>
                    let query_params = '''' in
                    bind_outcome
                      (canonical_headers (first_header rq)
                         (verb rq @ [CHR 0x0A] @ resource rq @ [CHR 0x0A] @ query_params @ [CHR 0x0A],
                          sh0))
                      (\<lambda>(creq, sh).
                         if sh = [] then Undefined
                         else Returns (SUCCEED,
                                Some (creq @ [CHR 0x0A] @ butlast sh @ [CHR 0x0A] @ EMPTY_SHA256),
                                Some (butlast sh))))))"

text \<open>
  \<open>H5FD_s3comms_trim\<close>. \<open>s\<close> stands for the \<open>s_len\<close> bytes at the source pointer (\<open>None\<close>
  for NULL), \<open>dest_given\<close> says that \<open>dest\<close> is not NULL; the result is the return value
  and the bytes copied to \<open>dest\<close>, whose number goes to \<open>*n_written\<close>.
\<close>

definition trim :: "bool \<Rightarrow> string option \<Rightarrow> herr_t \<times> string" where
  "trim dest_given s =
     (if \<not> dest_given then (FAIL (NullArgument ''dest''), [])
      else
        let s1 = dropWhile isspace (case s of None \<Rightarrow> [] | Some bytes \<Rightarrow> bytes)
        in (SUCCEED, rev (dropWhile isspace (rev s1))))"

text \<open>Two hexadecimal digits for a byte: \<open>"%02x"\<close> or \<open>"%02X"\<close>.\<close>

definition hex_digit :: "bool \<Rightarrow> nat \<Rightarrow> char" where
  "hex_digit lowercase d =
     (if d < 10 then char_of (48 + d)
      else if lowercase then char_of (87 + d) else char_of (55 + d))"

definition hex_byte :: "bool \<Rightarrow> char \<Rightarrow> string" where
  "hex_byte lowercase b =
     [hex_digit lowercase ((of_char b :: nat) div 16), hex_digit lowercase ((of_char b :: nat) mod 16)]"

text \<open>
  \<open>H5FD_s3comms_bytes_to_hex\<close> in a build with assertions: its \<open>snprintf\<close> stands inside
  \<open>HDassert\<close>. \<open>msg\<close> stands for the \<open>msg_len\<close> bytes at the pointer.
\<close>

definition bytes_to_hex :: "bool \<Rightarrow> string option \<Rightarrow> bool \<Rightarrow> herr_t \<times> string" where
  "bytes_to_hex dest_given msg lowercase =
     (if \<not> dest_given then (FAIL (NullArgument ''dest''), [])
      else case msg of
             None \<Rightarrow> (FAIL (NullArgument ''msg''), [])
           | Some bytes \<Rightarrow> (SUCCEED, concat (map (hex_byte lowercase) bytes)))"

text \<open>
  \<open>H5FD_s3comms_signing_key\<close>. \<open>HMAC\<close> is OpenSSL's function with \<open>EVP_sha256()\<close>, a
  parameter here: it takes the key bytes and the message bytes and gives the digest,
  of \<open>SHA256_DIGEST_LENGTH\<close> bytes. \<open>md_given\<close> says that the destination is not NULL;
  the result holds what is written there. The first call reads 8 bytes at
  \<open>iso8601now\<close>, whatever the length of that string: a string of 7 bytes is read with
  its terminator, a shorter one is read past it.
\<close>

definition signing_key ::
  "(string \<Rightarrow> string \<Rightarrow> string) \<Rightarrow> allocator \<Rightarrow> bool \<Rightarrow> string option \<Rightarrow> string option
     \<Rightarrow> string option \<Rightarrow> (herr_t \<times> string option) outcome" where
  "signing_key HMAC mem md_given secret region_arg iso8601now =
     (if \<not> md_given then Returns (FAIL (NullArgument ''md''), None)
      else case secret of
        None \<Rightarrow> Returns (FAIL (NullArgument ''secret''), None)
      | Some sec \<Rightarrow>
         (case region_arg of
            None \<Rightarrow> Returns (FAIL (NullArgument ''region''), None)
          | Some reg \<Rightarrow>
             (case iso8601now of
                None \<Rightarrow> Returns (FAIL (NullArgument ''iso8601now''), None)
              | Some now \<Rightarrow>
                  if \<not> mem ''AWS4_secret'' then Returns (FAIL (NoSpace ''AWS4_secret''), None)
                  else if length now < 7 then Undefined
                  else
                    let AWS4_secret = ''AWS4'' @ sec;
                        datekey = HMAC AWS4_secret (take 8 (now @ [CHR 0x00]));
                        dateregionkey = HMAC datekey reg;
                        dateregionservicekey = HMAC dateregionkey ''s3''
                    in Returns (SUCCEED, Some (HMAC dateregionservicekey ''aws4_request'')))))"

subsection \<open>Request engine: \<open>H5FD_s3comms_s3r_read\<close>\<close>

text \<open>
  \<open>s3r_t\<close> without its \<open>magic\<close> tag. \<open>haddr_t\<close> and \<open>size_t\<close> are declared outside the
  sources; the spec gives the offset 64 bits and the length the size of a pointer, so
  both, and \<open>filesize\<close>, are 64-bit words, and sums and comparisons are those of
  unsigned 64-bit integers. The curl handle is an opaque number. The field
  \<open>signing_key\<close> is called \<open>signing_key_field\<close> here, apart from the function of that
  name.
\<close>

record s3r_t =
  purl :: "parsed_url option"
  curlhandle :: "nat option"
  filesize :: "64 word"
  region :: "string option"
  secret_id :: "string option"
  signing_key_field :: "string option"
  httpverb :: "string option"

text \<open>The calls the function makes on the curl handle.\<close>

datatype curl_call =
    Setopt_WRITEDATA
  | Setopt_RANGE "string option"
  | Setopt_HTTPHEADER "string list option"
  | Perform

text \<open>
  What the function takes from outside the module: whether \<open>HDassert\<close> is compiled in
  (it is \<open>assert\<close>, gone under \<open>NDEBUG\<close>), the allocator, whether a call on the curl
  handle returns \<open>CURLE_OK\<close>, whether \<open>curl_slist_append\<close> returns a list, what
  \<open>ISO8601NOW\<close> writes for the present time, OpenSSL's \<open>HMAC\<close> and \<open>SHA256\<close>, and the
  constant \<open>S3COMMS_MAX_CREDENTIAL_SIZE\<close> of the missing header.
\<close>

record world =
  asserts :: bool
  malloc_ok :: allocator
  curl_ok :: "curl_call \<Rightarrow> bool"
  slist_ok :: "string \<Rightarrow> bool"
  iso8601_time :: string
  hmac :: "string \<Rightarrow> string \<Rightarrow> string"
  sha256 :: "string \<Rightarrow> string"
  max_credential_size :: nat

text \<open>
  \<open>H5_PRINTF_HADDR_FMT\<close> belongs to the missing headers; it prints a \<open>haddr_t\<close> as an
  unsigned decimal number.
\<close>

fun decimal :: "nat \<Rightarrow> string" where
  "decimal n =
     (if n < 10 then [char_of (48 + n)]
      else decimal (n div 10) @ [char_of (48 + n mod 10)])"

declare decimal.simps [simp del]

text \<open>
  The block FORMAT HTTP RANGE: the return value is \<open>FAIL\<close> when the string cannot be
  allocated, else the string \<open>rangebytesstr\<close>, \<open>None\<close> when it stays NULL. The sum
  \<open>offset + len\<close> is the one the source hands to \<open>snprintf\<close>.
\<close>

definition format_http_range ::
  "allocator \<Rightarrow> 64 word \<Rightarrow> 64 word \<Rightarrow> error + string option" where
  "format_http_range mem offset len =
     (if len > 0 then
        (if \<not> mem ''rangebytesstr'' then Inl (NoSpace ''rangebytesstr'')
         else Inr (Some (''bytes='' @ decimal (unat offset) @ ''-'' @ decimal (unat (offset + len)))))
      else if offset > 0 then
        (if \<not> mem ''rangebytesstr'' then Inl (NoSpace ''rangebytesstr'')
         else Inr (Some (''bytes='' @ decimal (unat offset) @ ''-'')))
      else Inr None)"

text \<open>
  A call of \<open>hrb_node_set\<close> that stands inside \<open>HDassert(SUCCEED == ...)\<close>: without
  assertions it is not made.
\<close>

definition asserted_node_set ::
  "world \<Rightarrow> hrb_node list \<Rightarrow> string \<Rightarrow> string option \<Rightarrow> hrb_node list outcome" where
  "asserted_node_set w headers nm v =
     (if asserts w then
        (case hrb_node_set (malloc_ok w) headers (Some nm) v of
           (SUCCEED, L') \<Rightarrow> Returns L'
         | (FAIL e, L') \<Rightarrow> Aborts)
      else Returns headers)"

text \<open>
  \<open>H5FD_s3comms_tostringtosign\<close> and \<open>H5FD_s3comms_HMAC_SHA256\<close>, as \<open>s3r_read\<close> calls them
  (no argument is NULL, and assertions are compiled in, or the header list would be
  empty and the read would have failed before).
\<close>

definition tostringtosign :: "world \<Rightarrow> string \<Rightarrow> string \<Rightarrow> string \<Rightarrow> (herr_t \<times> string) outcome" where
  "tostringtosign w req now region_arg =
     (let tmp = take 8 now @ ''/'' @ region_arg @ ''/s3/aws4_request'' in
      if length tmp \<ge> 127 then Aborts
      else case bytes_to_hex True (Some (sha256 w req)) True of
             (SUCCEED, hexsum) \<Rightarrow>
               Returns (SUCCEED,
                 ''AWS4-HMAC-SHA256'' @ [CHR 0x0A] @ now @ [CHR 0x0A] @ tmp @ [CHR 0x0A] @ hexsum)
           | (FAIL e, _) \<Rightarrow> Returns (FAIL HexString, []))"

definition HMAC_SHA256 :: "world \<Rightarrow> string \<Rightarrow> string \<Rightarrow> bool \<Rightarrow> herr_t \<times> string" where
  "HMAC_SHA256 w key msg dest_given =
     (if \<not> dest_given then (FAIL (NullArgument ''dest''), [])
      else case bytes_to_hex dest_given (Some (hmac w key msg)) True of
             (SUCCEED, hex) \<Rightarrow> (SUCCEED, hex)
           | (FAIL e, _) \<Rightarrow> (FAIL HexString, []))"

text \<open>
  Modelled from the spec: the macro \<open>S3COMMS_FORMAT_CREDENTIAL\<close> is defined in the missing
  header; the spec gives the credential as ID/YYYYMMDD/REGION/s3/aws4_request.
\<close>

definition format_credential :: "string \<Rightarrow> string \<Rightarrow> string \<Rightarrow> string \<Rightarrow> string" where
  "format_credential access iso8601_date region_arg service =
     access @ ''/'' @ iso8601_date @ ''/'' @ region_arg @ ''/'' @ service @ ''/aws4_request''"

text \<open>
  The loop at the label \<open>done\<close> that empties the header list: each turn removes the head
  by its own name, inside \<open>HDassert\<close>. Without assertions nothing is removed and the
  loop does not end.
\<close>

function free_headers :: "world \<Rightarrow> hrb_node list \<Rightarrow> unit outcome" where
  "free_headers w headers =
     (case headers of
        [] \<Rightarrow> Returns ()
      | n # rest \<Rightarrow>
          if \<not> asserts w then Diverges
          else (case hrb_node_set (malloc_ok w) headers (Some (name n)) None of
                  (SUCCEED, L') \<Rightarrow> free_headers w L'
                | (FAIL e, L') \<Rightarrow> Aborts))"
  by pat_completeness auto
termination
proof (relation "measure (\<lambda>(w, headers). length headers)")
  show "wf (measure (\<lambda>(w, headers). length headers))" by simp
next
  fix w :: world and headers :: "hrb_node list" and n rest x y
  assume h: "headers = n # rest"
    and x: "(x, y) = hrb_node_set (malloc_ok w) headers (Some (name n)) None"
    and y: "x = SUCCEED"
  have seek: "\<And>m L L'. hrb_node_seek True m L = (SUCCEED, L') \<Longrightarrow> Suc (length L') = length L"
  proof -
    fix m L L' show "hrb_node_seek True m L = (SUCCEED, L') \<Longrightarrow> Suc (length L') = length L"
      by (induction L arbitrary: L') (auto split: if_splits prod.splits)
  qed
  have "length y < length headers"
    using x [symmetric] y h seek
    by (auto simp: hrb_node_set_def Let_def split: if_splits prod.splits)
  then show "((w, y), (w, headers)) \<in> measure (\<lambda>(w, headers). length headers)" by simp
qed

text \<open>
  The label \<open>done\<close> once \<open>curlh\<close> is set: the header list is emptied when a request
  object exists, then the Range and the header list of the curl handle are cleared,
  both inside \<open>HDassert\<close>. \<open>calls\<close> are the calls made on the curl handle so far.
\<close>

definition read_done ::
  "world \<Rightarrow> bool \<Rightarrow> hrb_node list \<Rightarrow> curl_call list \<Rightarrow> herr_t
     \<Rightarrow> (herr_t \<times> curl_call list) outcome" where
  "read_done w request_given headers calls ret =
     bind_outcome (if request_given then free_headers w headers else Returns ())
       (\<lambda>_. if asserts w then
               (if \<not> curl_ok w (Setopt_RANGE None) then Aborts
                else if \<not> curl_ok w (Setopt_HTTPHEADER None) then Aborts
                else Returns (ret, calls @ [Setopt_RANGE None, Setopt_HTTPHEADER None]))
             else Returns (ret, calls))"

text \<open>
  The block that authenticates the request, after the header list holds Host, Range,
  x-amz-content-sha256 and x-amz-date. \<open>buffer1[512]\<close> takes the canonical request,
  \<open>signed_headers[48]\<close> the signed headers. The result is the return value so far, the
  header list and the calls made on the curl handle.
\<close>

definition compute_authorization ::
  "world \<Rightarrow> hrb_t \<Rightarrow> string \<Rightarrow> string \<Rightarrow> string \<Rightarrow> string \<Rightarrow> hrb_node list \<Rightarrow> curl_call list
     \<Rightarrow> (herr_t \<times> hrb_node list \<times> curl_call list) outcome" where
  "compute_authorization w request reg sid key iso8601now headers calls =
     bind_outcome
       (aws_canonical_request (Some []) (Some []) (Some (request\<lparr>first_header := headers\<rparr>)))
       (\<lambda>(r, buffer1, signed_headers).
          case (r, buffer1, signed_headers) of
            (SUCCEED, Some creq, Some sh) \<Rightarrow>
              if length creq \<ge> 512 \<or> length sh + 2 > 48 then Undefined
              else
                bind_outcome (tostringtosign w creq iso8601now reg)
                  (\<lambda>(r2, buffer2).
                     if r2 \<noteq> SUCCEED then Returns (FAIL Placeholder, headers, calls)
                     else case HMAC_SHA256 w key buffer2 True of
                       (FAIL e, _) \<Rightarrow> Returns (FAIL Placeholder, headers, calls)
                     | (SUCCEED, signature) \<Rightarrow>
                         let credential = format_credential sid (take 8 iso8601now) reg ''s3'';
                             authorization =
                               ''AWS4-HMAC-SHA256 Credential='' @ credential @
                               '',SignedHeaders='' @ sh @ '',Signature='' @ signature
                         in if asserts w \<and> length credential \<ge> max_credential_size w then Aborts
                            else if asserts w \<and> length authorization \<ge> 512 then Aborts
                            else
                              bind_outcome
                                (asserted_node_set w headers ''Authorization''
                                   (Some (take 511 authorization)))
                                (\<lambda>headers'.
                                   if headers' = [] then Returns (FAIL HeadersList, headers', calls)
                                   else if \<not> list_all (\<lambda>node. slist_ok w (cat node)) headers'
                                     then Returns (FAIL SlistAppend, headers', calls)
                                   else if \<not> curl_ok w (Setopt_HTTPHEADER (Some (map cat headers')))
                                     then Returns (FAIL (CurlSetopt ''CURLOPT_HTTPHEADER''), headers',
                                                   calls @ [Setopt_HTTPHEADER (Some (map cat headers'))])
                                   else Returns (SUCCEED, headers',
                                                 calls @ [Setopt_HTTPHEADER (Some (map cat headers'))])))
          | _ \<Rightarrow> Returns (FAIL Placeholder, headers, calls))"

text \<open>
  The authenticated branch of COMPILE REQUEST, from the checks of the handle to the
  header list of the curl handle. The result is the return value so far, whether a
  request object exists, the header list and the calls made on the curl handle.
  \<open>ISO8601NOW\<close> must give the 16 characters of yyyyMMDD'T'hhmmss'Z'.
\<close>

definition authenticate ::
  "world \<Rightarrow> s3r_t \<Rightarrow> parsed_url \<Rightarrow> string option \<Rightarrow> curl_call list
     \<Rightarrow> (herr_t \<times> bool \<times> hrb_node list \<times> curl_call list) outcome" where
  "authenticate w h pu rangebytesstr calls =
     (case region h of
        None \<Rightarrow> Returns (FAIL (NullArgument ''region''), False, [], calls)
      | Some reg \<Rightarrow>
     (case secret_id h of
        None \<Rightarrow> Returns (FAIL (NullArgument ''secret_id''), False, [], calls)
      | Some sid \<Rightarrow>
     (case signing_key_field h of
        None \<Rightarrow> Returns (FAIL (NullArgument ''signing_key''), False, [], calls)
      | Some key \<Rightarrow>
     (case httpverb h of
        None \<Rightarrow> Returns (FAIL (NullArgument ''httpverb''), False, [], calls)
      | Some vb \<Rightarrow>
     (case host pu of
        None \<Rightarrow> Returns (FAIL (NullArgument ''host''), False, [], calls)
      | Some hst \<Rightarrow>
     (case path pu of
        None \<Rightarrow> Returns (FAIL (NullArgument ''path''), False, [], calls)
      | Some pth \<Rightarrow>
     (case hrb_init_request (malloc_ok w) (Some vb) (Some pth) (Some ''HTTP/1.1'') of
        None \<Rightarrow> Returns (FAIL (NoSpace ''request''), False, [], calls)
      | Some request \<Rightarrow>
          let iso8601now = iso8601_time w in
          if length iso8601now \<noteq> 16 then Returns (FAIL Iso8601Format, True, [], calls)
          else
            bind_outcome (asserted_node_set w [] ''Host'' (Some hst)) (\<lambda>h1.
            if h1 = [] then Returns (FAIL HeadersList, True, h1, calls) else
            bind_outcome (case rangebytesstr of
                            None \<Rightarrow> Returns h1
                          | Some r \<Rightarrow> asserted_node_set w h1 ''Range'' (Some r)) (\<lambda>h2.
            if h2 = [] then Returns (FAIL HeadersList, True, h2, calls) else
            bind_outcome (asserted_node_set w h2 ''x-amz-content-sha256'' (Some EMPTY_SHA256)) (\<lambda>h3.
            if h3 = [] then Returns (FAIL HeadersList, True, h3, calls) else
            bind_outcome (asserted_node_set w h3 ''x-amz-date'' (Some iso8601now)) (\<lambda>h4.
            if h4 = [] then Returns (FAIL HeadersList, True, h4, calls) else
            bind_outcome (compute_authorization w request reg sid key iso8601now h4 calls)
              (\<lambda>(r, h5, calls'). Returns (r, True, h5, calls')))))))))))))"

text \<open>
  The function. \<open>handle\<close> is \<open>None\<close> for a NULL pointer and \<open>dest_given\<close> says that
  \<open>dest\<close> is not NULL. The result is the return value and the calls made on the curl
  handle, in order; \<open>Perform\<close> among them is the HTTP request. A failure before
  \<open>curlh\<close> is set leaves the curl handle untouched.
\<close>

definition s3r_read ::
  "world \<Rightarrow> s3r_t option \<Rightarrow> 64 word \<Rightarrow> 64 word \<Rightarrow> bool \<Rightarrow> (herr_t \<times> curl_call list) outcome" where
  "s3r_read w handle offset len dest_given =
     (case handle of
        None \<Rightarrow> Returns (FAIL (NullArgument ''handle''), [])
      | Some h \<Rightarrow>
         (if curlhandle h = None then Returns (FAIL (NullArgument ''curlhandle''), [])
          else
           (case purl h of
              None \<Rightarrow> Returns (FAIL (NullArgument ''purl''), [])
            | Some pu \<Rightarrow>
               (if offset > filesize h \<or> (len + offset) > filesize h
                  then Returns (FAIL ReadPastEof, [])
                else if dest_given \<and> \<not> malloc_ok w ''sds''
                  then read_done w False [] [] (FAIL (NoSpace ''sds''))
                else
                  let calls1 = (if dest_given then [Setopt_WRITEDATA] else []) in
                  if dest_given \<and> \<not> curl_ok w Setopt_WRITEDATA
                    then read_done w False [] calls1 (FAIL (CurlSetopt ''CURLOPT_WRITEDATA''))
                  else
                   (case format_http_range (malloc_ok w) offset len of
                      Inl e \<Rightarrow> read_done w False [] calls1 (FAIL e)
                    | Inr rangebytesstr \<Rightarrow>
                        bind_outcome
                          (if signing_key_field h = None then
                             (case rangebytesstr of
                                None \<Rightarrow> Returns (SUCCEED, False, [], calls1)
                              | Some r \<Rightarrow>
                                  let bytesrange = tl (dropWhile (\<lambda>c. c \<noteq> CHR ''='') r);
                                      calls2 = calls1 @ [Setopt_RANGE (Some bytesrange)]
                                  in if \<not> curl_ok w (Setopt_RANGE (Some bytesrange))
                                     then Returns (FAIL (CurlSetopt ''CURLOPT_RANGE''), False, [], calls2)
                                     else Returns (SUCCEED, False, [], calls2))
                           else authenticate w h pu rangebytesstr calls1)
                          (\<lambda>(r, request_given, headers, calls).
                             if r \<noteq> SUCCEED then read_done w request_given headers calls r
                             else if \<not> curl_ok w Perform
                               then read_done w request_given headers (calls @ [Perform])
                                      (FAIL PerformFailed)
                             else read_done w request_given headers (calls @ [Perform]) SUCCEED))))))"

subsection \<open>Notions of the specification\<close>

text \<open>
  The canonical request in the words of the specification (a second definition, to be
  compared with \<open>aws_canonical_request\<close>): verb, resource and query parameters, each
  followed by a line feed; for each header node in the order of the list its
  lower-cased name, a colon, its trimmed value and a line feed; a line feed; the
  lower-cased names joined by semicolons, the last semicolon removed; a line feed; the
  hash of the empty payload. The signed headers are that joined list.
\<close>

definition spec_signed_headers :: "hrb_node list \<Rightarrow> string" where
  "spec_signed_headers nodes = butlast (concat (map (\<lambda>n. lowername n @ '';'') nodes))"

definition spec_canonical_request :: "hrb_t \<Rightarrow> string" where
  "spec_canonical_request rq =
     verb rq @ [CHR 0x0A] @ resource rq @ [CHR 0x0A] @ [] @ [CHR 0x0A] @
     concat (map (\<lambda>n. lowername n @ '':'' @ snd (trim True (Some (value n))) @ [CHR 0x0A])
               (first_header rq)) @
     [CHR 0x0A] @ spec_signed_headers (first_header rq) @ [CHR 0x0A] @ EMPTY_SHA256"

text \<open>The number of line feeds of a string, its last line, and the hexadecimal digits.\<close>

definition newlines :: "string \<Rightarrow> nat" where
  "newlines s = count_list s (CHR 0x0A)"

definition last_line :: "string \<Rightarrow> string" where
  "last_line s = rev (takeWhile (\<lambda>c. c \<noteq> CHR 0x0A) (rev s))"

definition is_hex :: "char \<Rightarrow> bool" where
  "is_hex c \<longleftrightarrow> isdigit c \<or> ((97::nat) \<le> of_char c \<and> of_char c \<le> (102::nat))
                       \<or> ((65::nat) \<le> of_char c \<and> of_char c \<le> (70::nat))"

text \<open>
  A world in which every allocation and every call on the curl handle succeeds. Its
  \<open>hmac\<close> and \<open>sha256\<close> are stand-ins that give 32 bytes, not the functions of OpenSSL;
  nothing that is proved below depends on what they compute.
\<close>

definition world_ok :: world where
  "world_ok = \<lparr>asserts = True, malloc_ok = mem_ok, curl_ok = (\<lambda>c. True),
               slist_ok = (\<lambda>s. True), iso8601_time = ''20130524T000000Z'',
               hmac = (\<lambda>k m. take 32 (m @ k @ replicate 32 (CHR 0x00))),
               sha256 = (\<lambda>m. take 32 (m @ replicate 32 (CHR 0x00))),
               max_credential_size = 155\<rparr>"

text \<open>
  The request of the specification's third scenario (the published AWS example), and a
  request whose only header value has a blank at each end.
\<close>

definition aws_example :: hrb_t where
  "aws_example =
     \<lparr>verb = ''GET'', version = ''HTTP/1.1'', resource = ''/test.txt'', body = None, body_len = 0,
      first_header =
        [\<lparr>name = ''Host'', value = ''examplebucket.s3.amazonaws.com'',
           cat = ''Host: examplebucket.s3.amazonaws.com'', lowername = ''host''\<rparr>,
         \<lparr>name = ''x-amz-content-sha256'', value = EMPTY_SHA256,
           cat = ''x-amz-content-sha256: '' @ EMPTY_SHA256, lowername = ''x-amz-content-sha256''\<rparr>,
         \<lparr>name = ''x-amz-date'', value = ''20130524T000000Z'',
           cat = ''x-amz-date: 20130524T000000Z'', lowername = ''x-amz-date''\<rparr>]\<rparr>"

definition padded_example :: hrb_t where
  "padded_example =
     \<lparr>verb = ''GET'', version = ''HTTP/1.1'', resource = ''/test.txt'', body = None, body_len = 0,
      first_header =
        [\<lparr>name = ''Host'', value = '' examplebucket '',
           cat = ''Host:  examplebucket '', lowername = ''host''\<rparr>]\<rparr>"

text \<open>
  Bookkeeping for the URL parser: the blocks allocated so far are those that
  \<open>free_purl\<close> would free, and a call that does not succeed leaves \<open>*_purl\<close> alone and
  frees what it allocated.
\<close>

definition parse_inv :: "parsed_url \<Rightarrow> string list \<Rightarrow> bool" where
  "parse_inv pu al \<longleftrightarrow> mset al = mset (free_purl (Some pu))"

definition parse_clean :: "parsed_url option \<Rightarrow> parse_url_result outcome \<Rightarrow> bool" where
  "parse_clean slot res \<longleftrightarrow>
     (\<forall>r. res = Returns r \<longrightarrow> ret_value r \<noteq> SUCCEED \<longrightarrow>
          purl_out r = slot \<and> mset (released r) = mset (allocated r))"

text \<open>
  A handle as \<open>s3r_open\<close> leaves it for an anonymous read of an object of 100 bytes (the
  handle of the specification's sixth scenario).
\<close>

definition handle_100 :: s3r_t where
  "handle_100 =
     \<lparr>purl = Some \<lparr>scheme = Some ''http'', host = Some ''bucket.example.com'', port = None,
                     path = Some ''data.h5'', query = None\<rparr>,
      curlhandle = Some 1, filesize = 100, region = None, secret_id = None,
      signing_key_field = None, httpverb = Some ''GET''\<rparr>"

section \<open>Properties of the header list\<close>

lemma strcmp_refl: "strcmp xs xs = 0"
  by (induction xs) auto

lemma strcmp_eq_0: "strcmp xs ys = 0 \<longleftrightarrow> xs = ys"
  by (induction xs ys rule: strcmp.induct) auto

lemma strcmp_trans: "strcmp a b < 0 \<Longrightarrow> strcmp b c < 0 \<Longrightarrow> strcmp a c < 0"
proof (induction a b arbitrary: c rule: strcmp.induct)
  case 1 then show ?case by simp
next
  case (2 y ys) then show ?case by (cases c) auto
next
  case (3 x xs) then show ?case by simp
next
  case (4 x xs y ys)
  then show ?case by (cases c) (auto split: if_splits)
qed

lemma strcmp_total: "strcmp a b < 0 \<or> strcmp a b = 0 \<or> strcmp b a < 0"
  by (induction a b rule: strcmp.induct) auto

lemma hrb_less_trans: "hrb_less a b \<Longrightarrow> hrb_less b c \<Longrightarrow> hrb_less a c"
  unfolding hrb_less_def by (rule strcmp_trans)

lemma hrb_less_update [simp]:
  "hrb_less (a\<lparr>name := x, value := y, cat := z\<rparr>) b = hrb_less a b"
  "hrb_less b (a\<lparr>name := x, value := y, cat := z\<rparr>) = hrb_less b a"
  by (simp_all add: hrb_less_def)

lemma seek_lowernames:
  "lowername ` set (snd (hrb_node_seek remove n L)) \<subseteq> insert (lowername n) (lowername ` set L)"
proof (induction L)
  case Nil
  then show ?case by simp
next
  case (Cons a L)
  obtain r xs where sk: "hrb_node_seek remove n L = (r, xs)" by (cases "hrb_node_seek remove n L")
  with Cons show ?case by (cases remove) auto
qed

lemma seek_sorted:
  "sorted_wrt hrb_less (p # L) \<Longrightarrow> hrb_less p n \<Longrightarrow>
   sorted_wrt hrb_less (p # snd (hrb_node_seek remove n L))"
proof (induction L arbitrary: p)
  case Nil
  then show ?case by simp
next
  case (Cons nxt rest)
  show ?case
  proof (cases "strcmp (lowername n) (lowername nxt) < 0")
    case True
    then have "hrb_less n nxt" by (simp add: hrb_less_def)
    with Cons.prems show ?thesis
      using True by (auto intro: hrb_less_trans)
  next
    case nlt: False
    show ?thesis
    proof (cases "strcmp (lowername n) (lowername nxt) = 0")
      case True
      with Cons.prems show ?thesis by auto
    next
      case False
      with nlt have gt: "hrb_less nxt n"
        using strcmp_total [of "lowername n" "lowername nxt"] by (simp add: hrb_less_def)
      from Cons.prems have "sorted_wrt hrb_less (nxt # rest)" by simp
      from Cons.IH [OF this gt]
      have ih: "sorted_wrt hrb_less (nxt # snd (hrb_node_seek remove n rest))" .
      have "\<forall>x \<in> set (snd (hrb_node_seek remove n rest)). hrb_less p x"
      proof
        fix x assume "x \<in> set (snd (hrb_node_seek remove n rest))"
        then have "lowername x \<in> insert (lowername n) (lowername ` set rest)"
          using seek_lowernames [of remove n rest] by blast
        then show "hrb_less p x"
          using Cons.prems by (auto simp: hrb_less_def)
      qed
      with ih Cons.prems nlt False show ?thesis
        by (auto split: prod.splits)
    qed
  qed
qed

lemma seek_nodes_ok:
  "list_all hrb_node_ok L \<Longrightarrow> (\<not> remove \<longrightarrow> hrb_node_ok n) \<Longrightarrow>
   list_all hrb_node_ok (snd (hrb_node_seek remove n L))"
  by (induction L) (auto simp: hrb_node_ok_def strcmp_eq_0 split: prod.splits)

lemma sorted_distinct: "sorted_wrt hrb_less L \<Longrightarrow> distinct (map lowername L)"
  by (induction L) (auto simp: hrb_less_def strcmp_refl)

lemma set_unfold:
  "n = \<lparr>name = nam, value = (case v of None \<Rightarrow> [] | Some s \<Rightarrow> s),
          cat = nam @ '': '' @ (case v of None \<Rightarrow> [] | Some s \<Rightarrow> s), lowername = map tolower nam\<rparr> \<Longrightarrow>
   r = (v = None) \<Longrightarrow>
   hrb_node_set mem (ptr # rest) (Some nam) v =
     (if \<not> r \<and> \<not> mem ''namecpy'' then (FAIL (NoSpace ''namecpy''), ptr # rest)
      else if \<not> r \<and> \<not> mem ''valuecpy'' then (FAIL (NoSpace ''valuecpy''), ptr # rest)
      else if \<not> r \<and> \<not> mem ''nvcat'' then (FAIL (NoSpace ''nvcat''), ptr # rest)
      else if \<not> mem ''lowername'' then (FAIL (NoSpace ''lowername''), ptr # rest)
      else if \<not> mem ''new_node'' then (FAIL (NoSpace ''new_node''), ptr # rest)
      else if strcmp (lowername n) (lowername ptr) = 0 then
         (if r then (SUCCEED, rest)
          else (SUCCEED, ptr\<lparr>name := name n, value := value n, cat := cat n\<rparr> # rest))
      else if strcmp (lowername n) (lowername ptr) < 0 then
         (if r then (FAIL RemoveBeforeHead, ptr # rest)
          else (SUCCEED, n # ptr # rest))
      else (fst (hrb_node_seek r n rest), ptr # snd (hrb_node_seek r n rest)))"
  by (simp add: hrb_node_set_def Let_def split: prod.splits)

lemma set_inv: "hrb_list_inv L \<Longrightarrow> hrb_list_inv (snd (hrb_node_set mem L nm v))"
proof -
  assume inv: "hrb_list_inv L"
  then have s: "sorted_wrt hrb_less L" and ok: "list_all hrb_node_ok L"
    by (simp_all add: hrb_list_inv_def)
  have "sorted_wrt hrb_less (snd (hrb_node_set mem L nm v))
      \<and> list_all hrb_node_ok (snd (hrb_node_set mem L nm v))"
  proof (cases nm)
    case None
    with s ok show ?thesis by (simp add: hrb_node_set_def)
  next
    case (Some nam)
    show ?thesis
    proof (cases L)
      case Nil
      with Some show ?thesis
        by (auto simp: hrb_node_set_def Let_def hrb_node_ok_def split: option.splits)
    next
      case (Cons ptr rest)
      define n where "n = \<lparr>name = nam, value = (case v of None \<Rightarrow> [] | Some s \<Rightarrow> s),
          cat = nam @ '': '' @ (case v of None \<Rightarrow> [] | Some s \<Rightarrow> s), lowername = map tolower nam\<rparr>"
      define r where "r = (v = None)"
      have nok: "hrb_node_ok n" by (simp add: n_def hrb_node_ok_def)
      have s': "sorted_wrt hrb_less (ptr # rest)" and ok': "list_all hrb_node_ok (ptr # rest)"
        using s ok Cons by simp_all
      consider (eq) "strcmp (lowername n) (lowername ptr) = 0"
        | (lt) "strcmp (lowername n) (lowername ptr) \<noteq> 0" "strcmp (lowername n) (lowername ptr) < 0"
        | (gt) "strcmp (lowername n) (lowername ptr) \<noteq> 0" "\<not> strcmp (lowername n) (lowername ptr) < 0"
        by blast
      then have "sorted_wrt hrb_less (snd (hrb_node_set mem (ptr # rest) (Some nam) v))
         \<and> list_all hrb_node_ok (snd (hrb_node_set mem (ptr # rest) (Some nam) v))"
      proof cases
        case eq
        then have l: "lowername ptr = lowername n" by (simp add: strcmp_eq_0)
        have "hrb_node_ok (ptr\<lparr>name := name n, value := value n, cat := cat n\<rparr>)"
          using nok l by (simp add: hrb_node_ok_def)
        with eq s' ok' show ?thesis
          by (simp add: set_unfold [OF n_def r_def])
      next
        case lt
        then have "hrb_less n ptr" by (simp add: hrb_less_def)
        then have "\<forall>x\<in>set (ptr # rest). hrb_less n x"
          using s' by (auto intro: hrb_less_trans)
        with lt s' ok' nok show ?thesis
          by (simp add: set_unfold [OF n_def r_def])
      next
        case gt
        then have g: "hrb_less ptr n"
          using strcmp_total [of "lowername n" "lowername ptr"] by (simp add: hrb_less_def)
        have a: "sorted_wrt hrb_less (ptr # snd (hrb_node_seek r n rest))"
          using seek_sorted [OF s' g] .
        have b: "list_all hrb_node_ok (snd (hrb_node_seek r n rest))"
          using seek_nodes_ok [of rest r n] ok' nok by simp
        from gt a b s' ok' show ?thesis
          by (cases r) (simp_all add: set_unfold [OF n_def r_def])
      qed
      with Some Cons show ?thesis by simp
    qed
  qed
  then show ?thesis
    by (simp add: hrb_list_inv_def sorted_distinct)
qed

lemma seek_remove_absent:
  "lowername n \<notin> lowername ` set L \<Longrightarrow> hrb_node_seek True n L = (FAIL RemoveAbsent, L)"
  by (induction L) (auto simp: strcmp_eq_0)

lemma set_all_inv: "hrb_list_inv L \<Longrightarrow> hrb_list_inv (snd (hrb_node_set_all L calls))"
proof (induction calls arbitrary: L)
  case Nil
  then show ?case by simp
next
  case (Cons c calls)
  obtain mem nm v where c: "c = (mem, nm, v)" by (cases c)
  have "hrb_list_inv (snd (hrb_node_set mem L nm v))"
    using Cons.prems by (rule set_inv)
  from Cons.IH [OF this] show ?case
    by (auto simp: c split: prod.splits)
qed

text \<open>
  Claim C3. After any series of calls of \<open>hrb_node_set\<close> that all return \<open>SUCCEED\<close>,
  started on the empty list: (a) the lower-cased names are pairwise distinct, (b) the
  nodes stand in strictly ascending order of \<open>strcmp\<close> on the lower-cased name, (c) the
  \<open>cat\<close> of every node is its name, then ": ", then its value; and the \<open>lowername\<close>
  that (a) and (b) speak of is the name in lower case.
\<close>

theorem hrb_node_set_invariants:
  assumes "hrb_node_set_all [] calls = (rs, L)"
    and "list_all (\<lambda>r. r = SUCCEED) rs"
  shows "distinct (map lowername L)
       \<and> sorted_wrt (\<lambda>a b. strcmp (lowername a) (lowername b) < 0) L
       \<and> list_all (\<lambda>n. cat n = name n @ '': '' @ value n) L
       \<and> list_all (\<lambda>n. lowername n = map tolower (name n)) L"
proof -
  have "hrb_list_inv []" by (simp add: hrb_list_inv_def)
  then have "hrb_list_inv (snd (hrb_node_set_all [] calls))" by (rule set_all_inv)
  with assms(1) have "hrb_list_inv L" by simp
  then show ?thesis
    by (simp add: hrb_list_inv_def hrb_less_def [abs_def] hrb_node_ok_def [abs_def] list_all_iff)
qed

theorem hrb_node_set_invariants_witness:
  "hrb_node_set_all []
     [(mem_ok, Some ''x-amz-date'', Some ''20130524T000000Z''),
      (mem_ok, Some ''Host'', Some ''example.com''),
      (mem_ok, Some ''Range'', Some ''bytes=0-9''),
      (mem_ok, Some ''HOST'', Some ''bucket.example.com''),
      (mem_ok, Some ''range'', None)]
   = ([SUCCEED, SUCCEED, SUCCEED, SUCCEED, SUCCEED],
      [\<lparr>name = ''HOST'', value = ''bucket.example.com'',
          cat = ''HOST: bucket.example.com'', lowername = ''host''\<rparr>,
       \<lparr>name = ''x-amz-date'', value = ''20130524T000000Z'',
          cat = ''x-amz-date: 20130524T000000Z'', lowername = ''x-amz-date''\<rparr>])
   \<and> list_all (\<lambda>r. r = SUCCEED) [SUCCEED, SUCCEED, SUCCEED, SUCCEED, SUCCEED]
   \<and> distinct (map lowername
      [\<lparr>name = ''HOST'', value = ''bucket.example.com'',
          cat = ''HOST: bucket.example.com'', lowername = ''host''\<rparr>,
       \<lparr>name = ''x-amz-date'', value = ''20130524T000000Z'',
          cat = ''x-amz-date: 20130524T000000Z'', lowername = ''x-amz-date''\<rparr>])
   \<and> sorted_wrt (\<lambda>a b. strcmp (lowername a) (lowername b) < 0)
      [\<lparr>name = ''HOST'', value = ''bucket.example.com'',
          cat = ''HOST: bucket.example.com'', lowername = ''host''\<rparr>,
       \<lparr>name = ''x-amz-date'', value = ''20130524T000000Z'',
          cat = ''x-amz-date: 20130524T000000Z'', lowername = ''x-amz-date''\<rparr>]
   \<and> list_all (\<lambda>n. cat n = name n @ '': '' @ value n)
      [\<lparr>name = ''HOST'', value = ''bucket.example.com'',
          cat = ''HOST: bucket.example.com'', lowername = ''host''\<rparr>,
       \<lparr>name = ''x-amz-date'', value = ''20130524T000000Z'',
          cat = ''x-amz-date: 20130524T000000Z'', lowername = ''x-amz-date''\<rparr>]
   \<and> list_all (\<lambda>n. lowername n = map tolower (name n))
      [\<lparr>name = ''HOST'', value = ''bucket.example.com'',
          cat = ''HOST: bucket.example.com'', lowername = ''host''\<rparr>,
       \<lparr>name = ''x-amz-date'', value = ''20130524T000000Z'',
          cat = ''x-amz-date: 20130524T000000Z'', lowername = ''x-amz-date''\<rparr>]"
proof -
  have run: "hrb_node_set_all []
     [(mem_ok, Some ''x-amz-date'', Some ''20130524T000000Z''),
      (mem_ok, Some ''Host'', Some ''example.com''),
      (mem_ok, Some ''Range'', Some ''bytes=0-9''),
      (mem_ok, Some ''HOST'', Some ''bucket.example.com''),
      (mem_ok, Some ''range'', None)]
   = ([SUCCEED, SUCCEED, SUCCEED, SUCCEED, SUCCEED],
      [\<lparr>name = ''HOST'', value = ''bucket.example.com'',
          cat = ''HOST: bucket.example.com'', lowername = ''host''\<rparr>,
       \<lparr>name = ''x-amz-date'', value = ''20130524T000000Z'',
          cat = ''x-amz-date: 20130524T000000Z'', lowername = ''x-amz-date''\<rparr>])"
    by code_simp
  have ok: "list_all (\<lambda>r. r = SUCCEED) [SUCCEED, SUCCEED, SUCCEED, SUCCEED, SUCCEED]"
    by simp
  from hrb_node_set_invariants [OF run ok] run ok show ?thesis
    by blast
qed

text \<open>
  Claim C7. With a NULL name, or a NULL value on the empty list, or a NULL value and no
  node whose \<open>lowername\<close> is the lower-cased name, \<open>hrb_node_set\<close> returns \<open>FAIL\<close> and
  the list is exactly the one it was given, whatever the allocator does.
\<close>

theorem hrb_node_set_failures:
  assumes "name_arg = None
         \<or> (value_arg = None \<and> L = [])
         \<or> (value_arg = None \<and> (\<forall>nm. name_arg = Some nm \<longrightarrow> map tolower nm \<notin> lowername ` set L))"
  shows "\<exists>e. hrb_node_set mem L name_arg value_arg = (FAIL e, L)"
proof (cases name_arg)
  case None
  then show ?thesis by (simp add: hrb_node_set_def)
next
  case (Some nm)
  with assms have v: "value_arg = None" and absent: "map tolower nm \<notin> lowername ` set L"
    by auto
  show ?thesis
  proof (cases L)
    case Nil
    with Some v show ?thesis by (simp add: hrb_node_set_def)
  next
    case (Cons ptr rest)
    define n where "n = \<lparr>name = nm, value = [], cat = nm @ '': '' @ [], lowername = map tolower nm\<rparr>"
    have ne: "strcmp (lowername n) (lowername ptr) \<noteq> 0"
      using absent Cons by (auto simp: strcmp_eq_0 n_def)
    have "lowername n \<notin> lowername ` set rest"
      using absent Cons by (simp add: n_def)
    then have sk: "hrb_node_seek True n rest = (FAIL RemoveAbsent, rest)"
      by (rule seek_remove_absent)
    have "n = \<lparr>name = nm, value = (case value_arg of None \<Rightarrow> [] | Some s \<Rightarrow> s),
          cat = nm @ '': '' @ (case value_arg of None \<Rightarrow> [] | Some s \<Rightarrow> s), lowername = map tolower nm\<rparr>"
      by (simp add: n_def v)
    from set_unfold [OF this, of True mem ptr rest] v ne sk Some Cons
    show ?thesis by simp
  qed
qed


theorem hrb_node_set_failures_witness:
  "(\<exists>e. hrb_node_set mem_ok [] None (Some ''v'') = (FAIL e, []))
   \<and> (\<exists>e. hrb_node_set mem_ok [] (Some ''Host'') None = (FAIL e, []))
   \<and> (\<exists>e. hrb_node_set mem_ok
            [\<lparr>name = ''Host'', value = ''a'', cat = ''Host: a'', lowername = ''host''\<rparr>]
            (Some ''Range'') None
          = (FAIL e, [\<lparr>name = ''Host'', value = ''a'', cat = ''Host: a'', lowername = ''host''\<rparr>]))"
proof -
  have t: "map tolower ''Range'' = ''range''" by code_simp
  show ?thesis
    using hrb_node_set_failures [of None "Some ''v''" "[]" mem_ok]
      hrb_node_set_failures [of "Some ''Host''" None "[]" mem_ok]
      hrb_node_set_failures [of "Some ''Range''" None
        "[\<lparr>name = ''Host'', value = ''a'', cat = ''Host: a'', lowername = ''host''\<rparr>]" mem_ok]
    by (simp add: t)
qed

section \<open>Properties of the URL parser\<close>

lemma parse_clean_fail:
  "parse_inv pu al \<Longrightarrow> parse_clean slot (parse_fail e slot (Some pu) al)"
  by (simp add: parse_clean_def parse_fail_def parse_inv_def)

lemma parse_clean_succeed: "parse_clean slot (parse_succeed pu al)"
  by (simp add: parse_clean_def parse_succeed_def)

lemma parse_clean_Undefined: "parse_clean slot Undefined"
  by (simp add: parse_clean_def)

lemma read_query_clean:
  "parse_inv pu al \<Longrightarrow> parse_clean slot (read_query mem slot pu al urllen t)"
  by (simp add: read_query_def parse_clean_fail parse_clean_succeed split: list.splits)

lemma read_path_clean:
  assumes "parse_inv pu al" "path pu = None"
  shows "parse_clean slot (read_path mem slot pu al urllen t)"
proof -
  have "parse_inv (pu\<lparr>path := Some p\<rparr>) (al @ [''path''])" for p
    using assms by (simp add: parse_inv_def free_purl_def)
  with assms(1) show ?thesis
    by (simp add: read_path_def Let_def parse_clean_fail read_query_clean split: list.splits)
qed

lemma read_port_clean:
  assumes "parse_inv pu al" "path pu = None" "port pu = None"
  shows "parse_clean slot (read_port mem slot pu al urllen t)"
proof -
  have "parse_inv (pu\<lparr>port := Some p\<rparr>) (al @ [''port''])" for p
    using assms by (simp add: parse_inv_def free_purl_def)
  with assms show ?thesis
    by (simp add: read_port_def Let_def parse_clean_fail read_path_clean split: list.splits)
qed

lemma read_host_clean:
  assumes "parse_inv pu al" "path pu = None" "port pu = None" "host pu = None"
  shows "parse_clean slot (read_host mem slot pu al urllen t)"
proof -
  have "parse_inv (pu\<lparr>host := Some p\<rparr>) (al @ [''host''])" for p
    using assms by (simp add: parse_inv_def free_purl_def)
  with assms show ?thesis
    by (simp add: read_host_def Let_def parse_clean_fail read_port_clean parse_clean_Undefined)
qed

lemma parse_url_clean: "parse_clean slot (parse_url mem str slot)"
proof -
  have a: "parse_inv \<lparr>scheme = None, host = None, port = None, path = None, query = None\<rparr> [''purl'']"
    by (simp add: parse_inv_def free_purl_def)
  have b: "parse_inv \<lparr>scheme = Some s, host = None, port = None, path = None, query = None\<rparr>
             [''purl'', ''scheme'']" for s
    by (simp add: parse_inv_def free_purl_def)
  have c: "parse_clean slot (parse_fail e slot None [])" for e
    by (simp add: parse_clean_def parse_fail_def free_purl_def)
  show ?thesis
    using a b c
    by (simp add: parse_url_def Let_def parse_clean_fail read_host_clean parse_clean_Undefined
             split: option.splits)
qed

text \<open>
  Claim C9. Whenever \<open>parse_url\<close> returns \<open>FAIL\<close>, \<open>*_purl\<close> holds the value it had at the
  call, and the blocks the call freed are exactly the blocks it allocated: the slot is
  written only on success and nothing half built stays behind.
\<close>

theorem parse_url_failure_leaves_slot:
  assumes "parse_url mem str slot = Returns r" and "ret_value r \<noteq> SUCCEED"
  shows "purl_out r = slot \<and> mset (released r) = mset (allocated r)"
  using parse_url_clean [of slot mem str] assms by (simp add: parse_clean_def)

theorem parse_url_failure_leaves_slot_witness:
  "parse_url mem_ok (Some ''http://'') (Some \<lparr>scheme = Some ''s3'', host = Some ''old'', port = None, path = None, query = None\<rparr>)
     = Returns \<lparr>ret_value = FAIL HostEmpty,
                 purl_out = Some \<lparr>scheme = Some ''s3'', host = Some ''old'', port = None, path = None, query = None\<rparr>,
                 allocated = [''purl'', ''scheme''], released = [''scheme'', ''purl'']\<rparr>
   \<and> FAIL HostEmpty \<noteq> SUCCEED
   \<and> mset [''scheme'', ''purl''] = mset [''purl'', ''scheme'']"
proof -
  have run: "parse_url mem_ok (Some ''http://'') (Some \<lparr>scheme = Some ''s3'', host = Some ''old'', port = None, path = None, query = None\<rparr>)
     = Returns \<lparr>ret_value = FAIL HostEmpty,
                 purl_out = Some \<lparr>scheme = Some ''s3'', host = Some ''old'', port = None, path = None, query = None\<rparr>,
                 allocated = [''purl'', ''scheme''], released = [''scheme'', ''purl'']\<rparr>"
    by code_simp
  from parse_url_failure_leaves_slot [OF run] run show ?thesis by simp
qed

text \<open>
  Claim C6 says that an input whose scheme is not followed by "://" is refused. The parser
  looks for the first \<open>':'\<close> and steps over three bytes without looking at them: an
  input with a single slash is accepted, and the first letter of the host is lost.
\<close>

theorem parse_url_accepts_single_slash:
  "parse_url mem_ok (Some ''http:/example.com/data.h5'') None
     = Returns \<lparr>ret_value = SUCCEED,
                 purl_out = Some \<lparr>scheme = Some ''http'', host = Some ''xample.com'', port = None,
                                   path = Some ''data.h5'', query = None\<rparr>,
                 allocated = [''purl'', ''scheme'', ''host'', ''path''], released = []\<rparr>"
  by code_simp

text \<open>What the parser does refuse here: an input without any \<open>':'\<close>.\<close>

lemma parse_url_no_colon:
  assumes "CHR '':'' \<notin> set s"
  shows "\<exists>r. parse_url mem (Some s) slot = Returns r \<and> ret_value r \<noteq> SUCCEED"
proof -
  have d: "dropWhile (\<lambda>x. x \<noteq> CHR '':'') s = []"
    using assms by (auto simp: dropWhile_eq_Nil_conv)
  show ?thesis
    by (simp add: parse_url_def Let_def d parse_fail_def)
qed

section \<open>Properties of the canonical request\<close>

lemma canonical_headers_Returns:
  "canonical_headers hs (c, s) = Returns (c', s') \<Longrightarrow>
   c' = c @ concat (map (\<lambda>n. lowername n @ '':'' @ value n @ [CHR 0x0A]) hs) \<and>
   s' = s @ concat (map (\<lambda>n. lowername n @ '';'') hs)"
proof (induction hs arbitrary: c s)
  case Nil
  then show ?case by simp
next
  case (Cons a hs)
  from Cons.prems have
    "canonical_headers hs (c @ lowername a @ '':'' @ value a @ [CHR 0x0A], s @ lowername a @ '';'')
       = Returns (c', s')"
    by (simp split: if_splits)
  from Cons.IH [OF this] show ?case by simp
qed

lemma EMPTY_SHA256_facts:
  "length EMPTY_SHA256 = 64" "list_all is_hex EMPTY_SHA256" "CHR 0x0A \<notin> set EMPTY_SHA256"
  by (simp_all add: EMPTY_SHA256_def is_hex_def isdigit_def)

lemma newlines_append: "newlines (xs @ ys) = newlines xs + newlines ys"
  by (simp add: newlines_def)

lemma newlines_none: "CHR 0x0A \<notin> set xs \<Longrightarrow> newlines xs = 0"
  by (simp add: newlines_def)

lemma newlines_lf [simp]: "newlines [CHR 0x0A] = 1" "newlines (CHR 0x0A # xs) = Suc (newlines xs)"
  by (simp_all add: newlines_def)

lemma newlines_lines:
  "\<forall>n\<in>set hs. CHR 0x0A \<notin> set (lowername n) \<and> CHR 0x0A \<notin> set (value n) \<Longrightarrow>
   newlines (concat (map (\<lambda>n. lowername n @ '':'' @ value n @ [CHR 0x0A]) hs)) = length hs"
  by (induction hs) (simp_all add: newlines_append newlines_none newlines_def)

lemma last_line_tail:
  assumes "CHR 0x0A \<notin> set ys"
  shows "last_line (xs @ [CHR 0x0A] @ ys) = ys"
proof -
  have a: "takeWhile (\<lambda>c. c \<noteq> CHR 0x0A) (rev ys) = rev ys"
    using assms by (auto simp: takeWhile_eq_all_conv)
  have "last_line (xs @ [CHR 0x0A] @ ys)
      = rev (takeWhile (\<lambda>c. c \<noteq> CHR 0x0A) (rev ys @ CHR 0x0A # rev xs))"
    by (simp add: last_line_def)
  also have "\<dots> = rev (takeWhile (\<lambda>c. c \<noteq> CHR 0x0A) (rev ys))"
    by (simp add: takeWhile_tail)
  also have "\<dots> = ys"
    by (simp only: a rev_rev_ident)
  finally show ?thesis .
qed

text \<open>
  Claim C8, amended. A canonical request that \<open>aws_canonical_request\<close> returns for a
  request with \<open>n\<close> headers has exactly \<open>n + 5\<close> line feeds (six with one header), as long as
  no line feed stands inside the verb, the resource, a header name or value or the old
  content of the signed-headers buffer; its last line is the hash of the empty payload,
  64 hexadecimal characters.
\<close>

theorem canonical_request_shape:
  assumes "aws_canonical_request dest (Some sh0) (Some rq) = Returns (SUCCEED, Some creq, sh)"
    and "CHR 0x0A \<notin> set (verb rq)" and "CHR 0x0A \<notin> set (resource rq)"
    and "CHR 0x0A \<notin> set sh0"
    and "\<forall>n\<in>set (first_header rq). CHR 0x0A \<notin> set (lowername n) \<and> CHR 0x0A \<notin> set (value n)"
  shows "newlines creq = length (first_header rq) + 5
       \<and> last_line creq = EMPTY_SHA256
       \<and> length (last_line creq) = 64 \<and> list_all is_hex (last_line creq)"
proof -
  obtain d where dest: "dest = Some d"
    using assms(1) by (cases dest) (auto simp: aws_canonical_request_def)
  let ?c0 = "verb rq @ [CHR 0x0A] @ resource rq @ [CHR 0x0A] @ [] @ [CHR 0x0A]"
  obtain c s where hs: "canonical_headers (first_header rq) (?c0, sh0) = Returns (c, s)"
    using assms(1) dest
    by (cases "canonical_headers (first_header rq) (?c0, sh0)")
       (auto simp: aws_canonical_request_def Let_def)
  from canonical_headers_Returns [OF hs]
  have c: "c = ?c0 @ concat (map (\<lambda>n. lowername n @ '':'' @ value n @ [CHR 0x0A]) (first_header rq))"
    and s: "s = sh0 @ concat (map (\<lambda>n. lowername n @ '';'') (first_header rq))" by simp_all
  from assms(1) dest hs have sne: "s \<noteq> []" and
    creq: "creq = c @ [CHR 0x0A] @ butlast s @ [CHR 0x0A] @ EMPTY_SHA256"
    by (auto simp: aws_canonical_request_def Let_def split: if_splits)
  have "CHR 0x0A \<notin> set s"
    using assms(4,5) by (auto simp: s)
  then have bl: "CHR 0x0A \<notin> set (butlast s)"
    by (meson in_set_butlastD)
  have nc: "newlines c = length (first_header rq) + 3"
    using assms(2,3) newlines_lines [OF assms(5)]
    by (simp add: c newlines_append newlines_none)
  have n: "newlines creq = length (first_header rq) + 5"
    using nc bl by (simp add: creq newlines_append newlines_none EMPTY_SHA256_facts)
  have "creq = (c @ [CHR 0x0A] @ butlast s) @ [CHR 0x0A] @ EMPTY_SHA256"
    by (simp add: creq)
  then have l: "last_line creq = EMPTY_SHA256"
    by (simp only: last_line_tail [OF EMPTY_SHA256_facts(3)])
  show ?thesis using n l by (simp add: EMPTY_SHA256_facts)
qed


theorem canonical_request_shape_witness:
  "aws_canonical_request (Some []) (Some []) (Some aws_example)
     = Returns (SUCCEED,
         Some (''GET'' @ [CHR 0x0A] @ ''/test.txt'' @ [CHR 0x0A] @ [CHR 0x0A] @
        ''host:examplebucket.s3.amazonaws.com'' @ [CHR 0x0A] @
        ''x-amz-content-sha256:'' @ EMPTY_SHA256 @ [CHR 0x0A] @
        ''x-amz-date:20130524T000000Z'' @ [CHR 0x0A] @ [CHR 0x0A] @
        ''host;x-amz-content-sha256;x-amz-date'' @ [CHR 0x0A] @ EMPTY_SHA256),
         Some ''host;x-amz-content-sha256;x-amz-date'')
   \<and> CHR 0x0A \<notin> set (verb aws_example) \<and> CHR 0x0A \<notin> set (resource aws_example)
   \<and> CHR 0x0A \<notin> set []
   \<and> list_all (\<lambda>n. CHR 0x0A \<notin> set (lowername n) \<and> CHR 0x0A \<notin> set (value n))
         (first_header aws_example)
   \<and> newlines (''GET'' @ [CHR 0x0A] @ ''/test.txt'' @ [CHR 0x0A] @ [CHR 0x0A] @
        ''host:examplebucket.s3.amazonaws.com'' @ [CHR 0x0A] @
        ''x-amz-content-sha256:'' @ EMPTY_SHA256 @ [CHR 0x0A] @
        ''x-amz-date:20130524T000000Z'' @ [CHR 0x0A] @ [CHR 0x0A] @
        ''host;x-amz-content-sha256;x-amz-date'' @ [CHR 0x0A] @ EMPTY_SHA256) = length (first_header aws_example) + 5
   \<and> last_line (''GET'' @ [CHR 0x0A] @ ''/test.txt'' @ [CHR 0x0A] @ [CHR 0x0A] @
        ''host:examplebucket.s3.amazonaws.com'' @ [CHR 0x0A] @
        ''x-amz-content-sha256:'' @ EMPTY_SHA256 @ [CHR 0x0A] @
        ''x-amz-date:20130524T000000Z'' @ [CHR 0x0A] @ [CHR 0x0A] @
        ''host;x-amz-content-sha256;x-amz-date'' @ [CHR 0x0A] @ EMPTY_SHA256) = EMPTY_SHA256"
proof -
  have run: "aws_canonical_request (Some []) (Some []) (Some aws_example)
     = Returns (SUCCEED,
         Some (''GET'' @ [CHR 0x0A] @ ''/test.txt'' @ [CHR 0x0A] @ [CHR 0x0A] @
        ''host:examplebucket.s3.amazonaws.com'' @ [CHR 0x0A] @
        ''x-amz-content-sha256:'' @ EMPTY_SHA256 @ [CHR 0x0A] @
        ''x-amz-date:20130524T000000Z'' @ [CHR 0x0A] @ [CHR 0x0A] @
        ''host;x-amz-content-sha256;x-amz-date'' @ [CHR 0x0A] @ EMPTY_SHA256),
         Some ''host;x-amz-content-sha256;x-amz-date'')"
    by (simp add: aws_canonical_request_def aws_example_def EMPTY_SHA256_def)
  have a: "CHR 0x0A \<notin> set (verb aws_example)" "CHR 0x0A \<notin> set (resource aws_example)"
    by (simp_all add: aws_example_def)
  have b: "CHR 0x0A \<notin> set ([] :: string)" by simp
  have c: "\<forall>n\<in>set (first_header aws_example).
          CHR 0x0A \<notin> set (lowername n) \<and> CHR 0x0A \<notin> set (value n)"
    by (simp add: aws_example_def EMPTY_SHA256_def)
  have c': "list_all (\<lambda>n. CHR 0x0A \<notin> set (lowername n) \<and> CHR 0x0A \<notin> set (value n))
         (first_header aws_example)"
    using c by (simp only: list_all_iff)
  from canonical_request_shape [OF run a b c] run a b c' show ?thesis by blast
qed

text \<open>
  Claim C8 as stated asks for exactly six line feeds whatever the number of headers. The
  request of the AWS example has three headers, and its canonical request eight line
  feeds.
\<close>

theorem canonical_request_six_newlines_counterexample:
  "aws_canonical_request (Some []) (Some []) (Some aws_example)
     = Returns (SUCCEED,
         Some (''GET'' @ [CHR 0x0A] @ ''/test.txt'' @ [CHR 0x0A] @ [CHR 0x0A] @
        ''host:examplebucket.s3.amazonaws.com'' @ [CHR 0x0A] @
        ''x-amz-content-sha256:'' @ EMPTY_SHA256 @ [CHR 0x0A] @
        ''x-amz-date:20130524T000000Z'' @ [CHR 0x0A] @ [CHR 0x0A] @
        ''host;x-amz-content-sha256;x-amz-date'' @ [CHR 0x0A] @ EMPTY_SHA256),
         Some ''host;x-amz-content-sha256;x-amz-date'')
   \<and> newlines (''GET'' @ [CHR 0x0A] @ ''/test.txt'' @ [CHR 0x0A] @ [CHR 0x0A] @
        ''host:examplebucket.s3.amazonaws.com'' @ [CHR 0x0A] @
        ''x-amz-content-sha256:'' @ EMPTY_SHA256 @ [CHR 0x0A] @
        ''x-amz-date:20130524T000000Z'' @ [CHR 0x0A] @ [CHR 0x0A] @
        ''host;x-amz-content-sha256;x-amz-date'' @ [CHR 0x0A] @ EMPTY_SHA256) \<noteq> 6"
  by (simp add: aws_canonical_request_def aws_example_def EMPTY_SHA256_def newlines_def)

text \<open>
  Claim C4 describes each header line as the lower-cased name, a colon and the trimmed
  value, as the comment at the head of the function does. The function writes the
  value as it is stored: with a value that begins and ends with a blank the line keeps
  both blanks, and the result is not the string the claim describes. The signed
  headers are the joined names in both.
\<close>

theorem canonical_request_value_not_trimmed:
  "aws_canonical_request (Some []) (Some []) (Some padded_example)
     = Returns (SUCCEED,
         Some (''GET'' @ [CHR 0x0A] @ ''/test.txt'' @ [CHR 0x0A] @ [CHR 0x0A] @
        ''host: examplebucket '' @ [CHR 0x0A] @ [CHR 0x0A] @ ''host'' @ [CHR 0x0A] @ EMPTY_SHA256),
         Some ''host'')
   \<and> spec_canonical_request padded_example =
         ''GET'' @ [CHR 0x0A] @ ''/test.txt'' @ [CHR 0x0A] @ [CHR 0x0A] @
        ''host:examplebucket'' @ [CHR 0x0A] @ [CHR 0x0A] @ ''host'' @ [CHR 0x0A] @ EMPTY_SHA256
   \<and> spec_signed_headers (first_header padded_example) = ''host''
   \<and> ''GET'' @ [CHR 0x0A] @ ''/test.txt'' @ [CHR 0x0A] @ [CHR 0x0A] @
        ''host: examplebucket '' @ [CHR 0x0A] @ [CHR 0x0A] @ ''host'' @ [CHR 0x0A] @ EMPTY_SHA256
     \<noteq> spec_canonical_request padded_example"
  by (simp add: aws_canonical_request_def padded_example_def spec_canonical_request_def
        spec_signed_headers_def trim_def isspace_def)

text \<open>
  Apart from the trimming the function and the specification agree: on a request whose
  header values have no white space at either end, every returning call gives the
  canonical request and the signed headers of the specification.
\<close>

lemma canonical_request_trimmed_values:
  assumes "aws_canonical_request (Some d) (Some []) (Some rq) = Returns (r, c, s)"
    and "\<forall>n\<in>set (first_header rq). snd (trim True (Some (value n))) = value n"
  shows "r = SUCCEED \<and> c = Some (spec_canonical_request rq)
       \<and> s = Some (spec_signed_headers (first_header rq))"
proof -
  let ?c0 = "verb rq @ [CHR 0x0A] @ resource rq @ [CHR 0x0A] @ [] @ [CHR 0x0A]"
  obtain c1 s1 where hs: "canonical_headers (first_header rq) (?c0, []) = Returns (c1, s1)"
    using assms(1)
    by (cases "canonical_headers (first_header rq) (?c0, [])")
       (auto simp: aws_canonical_request_def Let_def)
  from canonical_headers_Returns [OF hs]
  have c1: "c1 = ?c0 @ concat (map (\<lambda>n. lowername n @ '':'' @ value n @ [CHR 0x0A]) (first_header rq))"
    and s1: "s1 = concat (map (\<lambda>n. lowername n @ '';'') (first_header rq))" by simp_all
  have eq: "map (\<lambda>n. lowername n @ '':'' @ value n @ [CHR 0x0A]) (first_header rq)
          = map (\<lambda>n. lowername n @ '':'' @ snd (trim True (Some (value n))) @ [CHR 0x0A]) (first_header rq)"
    using assms(2) by (intro map_cong) simp_all
  from assms(1) hs have "r = SUCCEED" and "c = Some (c1 @ [CHR 0x0A] @ butlast s1 @ [CHR 0x0A] @ EMPTY_SHA256)"
    and "s = Some (butlast s1)"
    by (auto simp: aws_canonical_request_def Let_def split: if_splits)
  then show ?thesis
    unfolding spec_canonical_request_def spec_signed_headers_def c1 s1 eq [symmetric]
    by simp
qed

section \<open>Properties of the signing key\<close>

text \<open>
  Claim C5. For every secret, region and timestamp of at least 8 characters (a
  well-formed one has 16), when the working string can be allocated, the key written
  to \<open>md\<close> is HMAC(HMAC(HMAC(HMAC("AWS4" + secret, first 8 characters of the timestamp),
  region), "s3"), "aws4_request"), for whatever function \<open>HMAC\<close> stands for; with
  OpenSSL's HMAC-SHA256 these are 32 bytes.
\<close>

theorem signing_key_chain:
  assumes "8 \<le> length now" and "mem ''AWS4_secret''"
  shows "signing_key HMAC mem True (Some secret) (Some reg) (Some now)
       = Returns (SUCCEED,
           Some (HMAC (HMAC (HMAC (HMAC (''AWS4'' @ secret) (take 8 now)) reg) ''s3'')
                   ''aws4_request''))"
  using assms by (simp add: signing_key_def Let_def)

theorem signing_key_chain_witness:
  "8 \<le> length ''20130524T000000Z'' \<and> mem_ok ''AWS4_secret''
   \<and> signing_key (hmac world_ok) mem_ok True (Some ''wJalrXUtnFEMI/K7MDENG+bPxRfiCYEXAMPLEKEY'')
         (Some ''us-east-1'') (Some ''20130524T000000Z'')
       = Returns (SUCCEED,
           Some (hmac world_ok
                  (hmac world_ok
                    (hmac world_ok
                      (hmac world_ok (''AWS4'' @ ''wJalrXUtnFEMI/K7MDENG+bPxRfiCYEXAMPLEKEY'')
                         (take 8 ''20130524T000000Z''))
                      ''us-east-1'')
                    ''s3'')
                  ''aws4_request''))"
proof -
  have a: "8 \<le> length ''20130524T000000Z''" by simp
  have b: "mem_ok ''AWS4_secret''" by (simp add: mem_ok_def)
  from signing_key_chain [where HMAC = "hmac world_ok" and secret = "''wJalrXUtnFEMI/K7MDENG+bPxRfiCYEXAMPLEKEY''"
      and reg = "''us-east-1''" and mem = mem_ok and now = "''20130524T000000Z''", OF a b] a b
  show ?thesis by blast
qed

section \<open>Properties of the read\<close>

lemma bind_outcome_Returns:
  "bind_outcome m f = Returns y \<Longrightarrow> \<exists>x. m = Returns x \<and> f x = Returns y"
  by (cases m) simp_all

lemma read_done_ret:
  "read_done w rg hs cs ret = Returns (r, calls) \<Longrightarrow> r = ret"
  by (auto simp: read_done_def dest!: bind_outcome_Returns split: if_splits)






text \<open>
  An anonymous read that passes the checks, in a world where allocations and the calls
  on the curl handle succeed: the calls made, in order. The range is handed to
  \<open>CURLOPT_RANGE\<close> without its "bytes=".
\<close>

lemma s3r_read_anonymous:
  assumes "curlhandle h \<noteq> None" and "purl h \<noteq> None" and "signing_key_field h = None"
    and "\<not> (offset > filesize h \<or> offset + len > filesize h)"
    and "\<forall>v. malloc_ok w v" and "\<forall>c. curl_ok w c"
  shows "s3r_read w (Some h) offset len dest_given
       = Returns (SUCCEED,
           (if dest_given then [Setopt_WRITEDATA] else []) @
           (if len > 0 then
              [Setopt_RANGE (Some (decimal (unat offset) @ ''-'' @ decimal (unat (offset + len))))]
            else if offset > 0 then [Setopt_RANGE (Some (decimal (unat offset) @ ''-''))]
            else []) @
           [Perform] @
           (if asserts w then [Setopt_RANGE None, Setopt_HTTPHEADER None] else []))"
proof -
  from assms(4) have chk: "\<not> (offset > filesize h \<or> len + offset > filesize h)"
    by (simp add: add.commute)
  from assms(2) obtain pu where pu: "purl h = Some pu" by auto
  show ?thesis
    using assms(1,3,5,6) chk pu
    by (simp add: s3r_read_def format_http_range_def read_done_def Let_def)
qed

text \<open>
  The check for the end of the file, with the sum as the source computes it (\<open>len +
  offset\<close> in 64 bits): when it fires, the read returns \<open>FAIL\<close> and has made no call on the
  curl handle, so no HTTP request. The failure is the one of the check unless the handle
  lacks its curl handle or its URL and an earlier check has refused it. On the handle of
  100 bytes the read of 10 bytes at offset 95 is refused.
\<close>

lemma eof_check_refuses:
  assumes "offset > filesize h \<or> offset + len > filesize h"
  shows "s3r_read w (Some h) offset len dest_given
       = Returns (FAIL (if curlhandle h = None then NullArgument ''curlhandle''
                        else if purl h = None then NullArgument ''purl''
                        else ReadPastEof), [])"
  using assms by (auto simp: s3r_read_def add.commute split: option.splits)

lemma eof_check_refuses_95_10:
  "s3r_read world_ok (Some handle_100) 95 10 True = Returns (FAIL ReadPastEof, [])"
proof -
  have a: "95 > filesize handle_100 \<or> 95 + 10 > filesize handle_100"
    by (simp add: handle_100_def)
  from eof_check_refuses [OF a, of world_ok True] show ?thesis
    by (simp add: handle_100_def)
qed

text \<open>
  As long as the sum of the two numbers stays below \<open>2 ^ 64\<close> the 64-bit sum is that
  sum, and every read that starts or ends beyond the file is refused without a call on
  the curl handle.
\<close>

lemma past_eof_plain_sum:
  assumes "unat offset + unat len < 2 ^ 64"
    and "unat offset > unat (filesize h) \<or> unat offset + unat len > unat (filesize h)"
  shows "\<exists>e. s3r_read w (Some h) offset len dest_given = Returns (FAIL e, [])"
proof -
  have "unat (offset + len) = unat offset + unat len"
    using assms(1) by (simp add: unat_word_ariths)
  with assms(2) have "offset > filesize h \<or> offset + len > filesize h"
    by (simp add: word_less_nat_alt)
  then show ?thesis
    by (auto simp: s3r_read_def add.commute split: option.splits)
qed

text \<open>
  Claim C1 says that every read with \<open>offset > filesize\<close> or \<open>offset + len > filesize\<close>
  fails without an HTTP request, and the header comment of the function says the same
  ("If offset or offset+len is greater than the file size, read is aborted and returns
  FAIL"). The check computes \<open>len + offset\<close> in 64 bits and does not look for a carry. On
  the handle of 100 bytes, the read at offset 95 of \<open>2 ^ 64 - 1\<close> bytes ends at
  18446744073709551710, far beyond the file; the sum of the check is 94, the check lets
  the read pass, the range "95-94" is set, the request is performed and the function
  returns \<open>SUCCEED\<close>.
\<close>

theorem s3r_read_carry_not_refused:
  "filesize handle_100 = 100
   \<and> unat (95 :: 64 word) + unat (18446744073709551615 :: 64 word) = 18446744073709551710
   \<and> s3r_read world_ok (Some handle_100) 95 18446744073709551615 True
       = Returns (SUCCEED, [Setopt_WRITEDATA, Setopt_RANGE (Some ''95-94''), Perform,
                            Setopt_RANGE None, Setopt_HTTPHEADER None])"
proof -
  have h: "curlhandle handle_100 \<noteq> None" "purl handle_100 \<noteq> None"
    "signing_key_field handle_100 = None"
    "\<not> (95 > filesize handle_100 \<or> 95 + 18446744073709551615 > filesize handle_100)"
    by (simp_all add: handle_100_def)
  have w: "\<forall>v. malloc_ok world_ok v" "\<forall>c. curl_ok world_ok c"
    by (simp_all add: world_ok_def mem_ok_def)
  have d: "decimal (unat (95 :: 64 word)) = ''95''"
    "decimal (unat (95 + 18446744073709551615 :: 64 word)) = ''94''"
    by code_simp+
  have f: "filesize handle_100 = 100" by (simp add: handle_100_def)
  have n: "unat (95 :: 64 word) + unat (18446744073709551615 :: 64 word) = 18446744073709551710"
    by simp
  from s3r_read_anonymous [OF h w, of True] d f n show ?thesis
    by (simp add: world_ok_def)
qed

text \<open>
  The string has at most 47 characters, so it fits the 128 bytes allocated for it and
  the two assertions after each \<open>snprintf\<close> hold.
\<close>

lemma decimal_length: "0 < k \<Longrightarrow> n < 10 ^ k \<Longrightarrow> length (decimal n) \<le> k"
proof (induction k arbitrary: n)
  case 0
  then show ?case by simp
next
  case (Suc k)
  show ?case
  proof (cases "n < 10")
    case True
    then show ?thesis by (subst decimal.simps) simp
  next
    case False
    with Suc.prems have k: "0 < k" by (cases k) auto
    from Suc.prems have "n div 10 < 10 ^ k"
      by (simp add: less_mult_imp_div_less mult.commute)
    from Suc.IH [OF k this] False show ?thesis
      by (subst decimal.simps) simp
  qed
qed

lemma decimal_word_length: "length (decimal (unat (x :: 64 word))) \<le> 20"
proof -
  have "unat x < 2 ^ 64" using unsigned_less [of x] by simp
  also have "(2 :: nat) ^ 64 < 10 ^ 20" by simp
  finally show ?thesis by (intro decimal_length) simp_all
qed

lemma format_http_range_fits:
  "format_http_range mem offset len = Inr (Some r) \<Longrightarrow> 0 < length r \<and> length r < 128"
  using decimal_word_length [of offset] decimal_word_length [of "offset + len"]
  by (auto simp: format_http_range_def split: if_splits)

text \<open>
  The block FORMAT HTTP RANGE alone: when the string can be allocated, \<open>len > 0\<close> gives
  "bytes=", the offset in decimal, "-", and the 64-bit sum \<open>offset + len\<close> in decimal (not
  one less); \<open>len = 0\<close> with \<open>offset > 0\<close> gives "bytes=", the offset in decimal and "-".
\<close>

lemma format_http_range_value:
  assumes "mem ''rangebytesstr''"
  shows "(len > 0 \<longrightarrow>
            format_http_range mem offset len
              = Inr (Some (''bytes='' @ decimal (unat offset) @ ''-'' @ decimal (unat (offset + len)))))
       \<and> (len = 0 \<and> offset > 0 \<longrightarrow>
            format_http_range mem offset len
              = Inr (Some (''bytes='' @ decimal (unat offset) @ ''-'')))"
  using assms by (simp add: format_http_range_def)

lemma format_http_range_90:
  "format_http_range mem_ok 90 10 = Inr (Some ''bytes=90-100'')"
  "format_http_range mem_ok 90 0 = Inr (Some ''bytes=90-'')"
proof -
  have m: "mem_ok ''rangebytesstr''" by (simp add: mem_ok_def)
  have d: "decimal (unat (90 :: 64 word)) = ''90''" "decimal (unat (90 + 10 :: 64 word)) = ''100''"
    by code_simp+
  from format_http_range_value [where mem = mem_ok and len = 10 and offset = 90, OF m] d
  show "format_http_range mem_ok 90 10 = Inr (Some ''bytes=90-100'')" by simp
  from format_http_range_value [where mem = mem_ok and len = 0 and offset = 90, OF m] d
  show "format_http_range mem_ok 90 0 = Inr (Some ''bytes=90-'')" by simp
qed

text \<open>What a successful insertion or replacement leaves in the header list.\<close>

lemma seek_insert_present:
  "hrb_node_seek False n L = (r, L') \<Longrightarrow>
   r = SUCCEED \<and> (\<exists>m\<in>set L'. name m = name n \<and> value m = value n \<and> cat m = cat n
        \<and> lowername m = lowername n)"
proof (induction L arbitrary: L' r)
  case Nil
  then show ?case by auto
next
  case (Cons a L)
  show ?case
  proof (cases "strcmp (lowername n) (lowername a) < 0")
    case True
    with Cons.prems show ?thesis by auto
  next
    case lt: False
    show ?thesis
    proof (cases "strcmp (lowername n) (lowername a) = 0")
      case True
      then have "lowername a = lowername n" by (simp add: strcmp_eq_0)
      with True lt Cons.prems show ?thesis by auto
    next
      case False
      obtain r1 L1 where s: "hrb_node_seek False n L = (r1, L1)"
        by (cases "hrb_node_seek False n L")
      from Cons.IH [OF s] s lt False Cons.prems show ?thesis by auto
    qed
  qed
qed

lemma seek_insert_keeps:
  "hrb_node_seek False n L = (r, L') \<Longrightarrow> m \<in> set L \<Longrightarrow> lowername m \<noteq> lowername n \<Longrightarrow>
   m \<in> set L'"
proof (induction L arbitrary: L' r)
  case Nil
  then show ?case by simp
next
  case (Cons a L)
  obtain r1 L1 where s: "hrb_node_seek False n L = (r1, L1)"
    by (cases "hrb_node_seek False n L")
  from Cons.prems Cons.IH [OF s] s show ?case
    by (auto simp: strcmp_eq_0 split: if_splits)
qed

lemma node_set_present:
  assumes "hrb_node_set mem L (Some nm) (Some v) = (SUCCEED, L')"
  shows "\<exists>m\<in>set L'. name m = nm \<and> value m = v \<and> cat m = nm @ '': '' @ v
           \<and> lowername m = map tolower nm"
proof (cases L)
  case Nil
  with assms show ?thesis
    by (auto simp: hrb_node_set_def Let_def split: if_splits)
next
  case (Cons ptr rest)
  define n where "n = \<lparr>name = nm, value = (case Some v of None \<Rightarrow> [] | Some s \<Rightarrow> s),
          cat = nm @ '': '' @ (case Some v of None \<Rightarrow> [] | Some s \<Rightarrow> s), lowername = map tolower nm\<rparr>"
  have r: "False = (Some v = None)" by simp
  obtain r1 L1 where s: "hrb_node_seek False n rest = (r1, L1)"
    by (cases "hrb_node_seek False n rest")
  from seek_insert_present [OF s]
  have p: "\<exists>m\<in>set L1. name m = name n \<and> value m = value n \<and> cat m = cat n
        \<and> lowername m = lowername n" by simp
  have e: "strcmp (lowername n) (lowername ptr) = 0 \<Longrightarrow> lowername ptr = map tolower nm"
    by (simp add: strcmp_eq_0 n_def)
  have "hrb_node_set mem (ptr # rest) (Some nm) (Some v) = (SUCCEED, L')"
    using assms Cons by simp
  then show ?thesis
    unfolding set_unfold [OF n_def r] using s p e
    by (auto simp: n_def split: if_splits)
qed

lemma node_set_keeps:
  assumes "hrb_node_set mem L (Some nm) (Some v) = (SUCCEED, L')"
    and "m \<in> set L" and "lowername m \<noteq> map tolower nm"
  shows "m \<in> set L'"
proof (cases L)
  case Nil
  with assms show ?thesis by simp
next
  case (Cons ptr rest)
  define n where "n = \<lparr>name = nm, value = (case Some v of None \<Rightarrow> [] | Some s \<Rightarrow> s),
          cat = nm @ '': '' @ (case Some v of None \<Rightarrow> [] | Some s \<Rightarrow> s), lowername = map tolower nm\<rparr>"
  have r: "False = (Some v = None)" by simp
  obtain r1 L1 where s: "hrb_node_seek False n rest = (r1, L1)"
    by (cases "hrb_node_seek False n rest")
  have k: "m \<in> set rest \<Longrightarrow> m \<in> set L1"
    using seek_insert_keeps [OF s, of m] assms(3) by (simp add: n_def)
  have e: "strcmp (lowername n) (lowername ptr) = 0 \<Longrightarrow> lowername ptr = map tolower nm"
    by (simp add: strcmp_eq_0 n_def)
  have "hrb_node_set mem (ptr # rest) (Some nm) (Some v) = (SUCCEED, L')"
    using assms Cons by simp
  then show ?thesis
    unfolding set_unfold [OF n_def r] using s k e assms(2,3) Cons
    by (auto split: if_splits)
qed


lemma asserted_node_set_asserts:
  "asserted_node_set w [] nm v = Returns L' \<Longrightarrow> L' \<noteq> [] \<Longrightarrow> asserts w"
  by (auto simp: asserted_node_set_def split: if_splits)

lemma asserted_node_set_Returns:
  "asserted_node_set w L nm v = Returns L' \<Longrightarrow> asserts w \<Longrightarrow>
   hrb_node_set (malloc_ok w) L (Some nm) v = (SUCCEED, L')"
  by (auto simp: asserted_node_set_def split: if_splits prod.splits herr_t.splits)

lemma compute_authorization_SUCCEED:
  "compute_authorization w rq reg sid key now hs cs = Returns (SUCCEED, hs', cs') \<Longrightarrow>
   \<exists>a. asserted_node_set w hs ''Authorization'' (Some a) = Returns hs'
     \<and> cs' = cs @ [Setopt_HTTPHEADER (Some (map cat hs'))]"
  unfolding compute_authorization_def
  by (auto simp: Let_def dest!: bind_outcome_Returns
           split: prod.splits herr_t.splits option.splits if_splits; blast)

lemma lower_header_names:
  "map tolower ''Range'' = ''range''"
  "map tolower ''x-amz-content-sha256'' = ''x-amz-content-sha256''"
  "map tolower ''x-amz-date'' = ''x-amz-date''"
  "map tolower ''Authorization'' = ''authorization''"
  by code_simp+

text \<open>
  On the authenticated branch the string goes into the header list under the name
  Range, and the line "Range: " followed by it is among the lines handed to curl.
\<close>

lemma authenticate_range_header:
  assumes "authenticate w h pu (Some r) cs = Returns (SUCCEED, rg, hs, cs')"
  shows "(\<exists>m\<in>set hs. name m = ''Range'' \<and> value m = r)
       \<and> ''Range: '' @ r \<in> set (map cat hs)
       \<and> cs' = cs @ [Setopt_HTTPHEADER (Some (map cat hs))]"
proof -
  from assms obtain reg sid key rq h1 h2 h3 h4 where
    s1: "asserted_node_set w [] ''Host'' (host pu) = Returns h1" "h1 \<noteq> []" and
    s2: "asserted_node_set w h1 ''Range'' (Some r) = Returns h2" and
    s3: "asserted_node_set w h2 ''x-amz-content-sha256'' (Some EMPTY_SHA256) = Returns h3" and
    s4: "asserted_node_set w h3 ''x-amz-date'' (Some (iso8601_time w)) = Returns h4" and
    ca: "compute_authorization w rq reg sid key (iso8601_time w) h4 cs = Returns (SUCCEED, hs, cs')"
    unfolding authenticate_def
    by (auto simp: Let_def dest!: bind_outcome_Returns
             split: prod.splits option.splits if_splits)
  from s1 have a: "asserts w" by (rule asserted_node_set_asserts)
  from compute_authorization_SUCCEED [OF ca] obtain au where
    s5: "asserted_node_set w h4 ''Authorization'' (Some au) = Returns hs"
    and cs': "cs' = cs @ [Setopt_HTTPHEADER (Some (map cat hs))]" by blast
  note n2 = asserted_node_set_Returns [OF s2 a]
    and n3 = asserted_node_set_Returns [OF s3 a]
    and n4 = asserted_node_set_Returns [OF s4 a]
    and n5 = asserted_node_set_Returns [OF s5 a]
  from node_set_present [OF n2] obtain m where
    m: "m \<in> set h2" "name m = ''Range''" "value m = r" "cat m = ''Range'' @ '': '' @ r"
       "lowername m = ''range''"
    unfolding lower_header_names by auto
  have "m \<in> set h3" using node_set_keeps [OF n3 m(1)] m(5) by (simp add: lower_header_names)
  then have "m \<in> set h4" using node_set_keeps [OF n4] m(5) by (simp add: lower_header_names)
  then have "m \<in> set hs" using node_set_keeps [OF n5] m(5) by (simp add: lower_header_names)
  with m cs' show ?thesis by force
qed

lemma read_done_calls:
  "read_done w rg hs calls ret = Returns (r, cs) \<Longrightarrow> set calls \<subseteq> set cs"
  by (auto simp: read_done_def dest!: bind_outcome_Returns split: if_splits)

lemma range_after_equals:
  "tl (dropWhile (\<lambda>c. c \<noteq> CHR ''='') (''bytes='' @ s)) = s"
  by simp

text \<open>
  From the string to the wire: a read that returns \<open>SUCCEED\<close> with \<open>len > 0\<close> or
  \<open>offset > 0\<close> has formatted the range, and has handed it to curl, without its "bytes="
  through \<open>CURLOPT_RANGE\<close> on an anonymous handle, as the header line "Range: ..." on a
  signing one.
\<close>

lemma s3r_read_sends_range:
  assumes "s3r_read w (Some h) offset len dest_given = Returns (SUCCEED, cs)"
    and "len > 0 \<or> offset > 0"
  shows "\<exists>r. format_http_range (malloc_ok w) offset len = Inr (Some (''bytes='' @ r))
           \<and> (if signing_key_field h = None then Setopt_RANGE (Some r) \<in> set cs
                else \<exists>ls. Setopt_HTTPHEADER (Some ls) \<in> set cs
                          \<and> ''Range: bytes='' @ r \<in> set ls)"
proof -
  from assms(1) obtain pu where pu: "purl h = Some pu"
    by (auto simp: s3r_read_def split: option.splits if_splits)
  define calls1 where "calls1 = (if dest_given then [Setopt_WRITEDATA] else [])"
  from assms(1) pu obtain rb where rb: "format_http_range (malloc_ok w) offset len = Inr rb"
    by (auto simp: s3r_read_def Let_def dest!: read_done_ret
             split: option.splits if_splits sum.splits)
  from assms(2) rb obtain r where r: "rb = Some (''bytes='' @ r)"
    by (auto simp: format_http_range_def split: if_splits)
  from assms(1) pu rb r obtain rg hs calls where
    st: "(if signing_key_field h = None then
            (let bytesrange = tl (dropWhile (\<lambda>c. c \<noteq> CHR ''='') (''bytes='' @ r));
                 calls2 = calls1 @ [Setopt_RANGE (Some bytesrange)]
             in if \<not> curl_ok w (Setopt_RANGE (Some bytesrange))
                then Returns (FAIL (CurlSetopt ''CURLOPT_RANGE''), False, [], calls2)
                else Returns (SUCCEED, False, [], calls2))
          else authenticate w h pu (Some (''bytes='' @ r)) calls1) = Returns (SUCCEED, rg, hs, calls)"
    and dn: "read_done w rg hs (calls @ [Perform]) SUCCEED = Returns (SUCCEED, cs)"
    unfolding s3r_read_def calls1_def
    by (auto simp: Let_def dest!: bind_outcome_Returns dest: read_done_ret
             split: option.splits if_splits)
  from read_done_calls [OF dn] have sub: "set calls \<subseteq> set cs" by auto
  show ?thesis
  proof (cases "signing_key_field h = None")
    case True
    with st have "Setopt_RANGE (Some r) \<in> set calls"
      by (auto simp: Let_def split: if_splits)
    with sub True rb r show ?thesis by auto
  next
    case False
    with st have "authenticate w h pu (Some (''bytes='' @ r)) calls1 = Returns (SUCCEED, rg, hs, calls)"
      by simp
    from authenticate_range_header [OF this]
    have "''Range: '' @ ''bytes='' @ r \<in> set (map cat hs)"
      and "Setopt_HTTPHEADER (Some (map cat hs)) \<in> set calls" by simp_all
    with sub False rb r show ?thesis by auto
  qed
qed

text \<open>
  The same with the numbers themselves: when the sum of offset and length stays below
  \<open>2 ^ 64\<close>, as it does for every read that lies within a file, the range that a
  successful read has handed to curl is the offset in decimal, "-", and for \<open>len > 0\<close> the
  sum of offset and length in decimal, for \<open>len = 0\<close> nothing more.
\<close>

lemma s3r_read_range_plain_sum:
  assumes "s3r_read w (Some h) offset len dest_given = Returns (SUCCEED, cs)"
    and "unat offset + unat len < 2 ^ 64"
    and "len > 0 \<or> offset > 0"
  shows "(if signing_key_field h = None
          then Setopt_RANGE (Some (decimal (unat offset) @ ''-'' @
                 (if len > 0 then decimal (unat offset + unat len) else []))) \<in> set cs
          else \<exists>ls. Setopt_HTTPHEADER (Some ls) \<in> set cs
                 \<and> ''Range: bytes='' @ decimal (unat offset) @ ''-'' @
                     (if len > 0 then decimal (unat offset + unat len) else []) \<in> set ls)"
proof -
  have u: "unat (offset + len) = unat offset + unat len"
    using assms(2) by (simp add: unat_word_ariths)
  from s3r_read_sends_range [OF assms(1,3)] obtain r where
    r: "format_http_range (malloc_ok w) offset len = Inr (Some (''bytes='' @ r))"
    and s: "if signing_key_field h = None then Setopt_RANGE (Some r) \<in> set cs
            else \<exists>ls. Setopt_HTTPHEADER (Some ls) \<in> set cs \<and> ''Range: bytes='' @ r \<in> set ls"
    by blast
  from r assms(3) u have "r = decimal (unat offset) @ ''-'' @
                 (if len > 0 then decimal (unat offset + unat len) else [])"
    by (auto simp: format_http_range_def split: if_splits)
  with s show ?thesis by (simp only:)
qed

text \<open>
  Claim C2 gives the range of every read with \<open>len > 0\<close> as "bytes=", the offset in
  decimal, "-", and \<open>offset + len\<close> in decimal. The source hands \<open>offset + len\<close> to
  \<open>snprintf\<close> as a 64-bit sum, and the check before it lets a read pass whose sum has a
  carry. On the handle of 100 bytes, the read at offset 95 of \<open>2 ^ 64 - 1\<close> bytes has
  \<open>len > 0\<close>, and the range of the claim is "bytes=95-18446744073709551710"; the string
  formatted is "bytes=95-94", and the read returns \<open>SUCCEED\<close> after handing "95-94" to
  \<open>CURLOPT_RANGE\<close> and performing the request.
\<close>

theorem s3r_read_range_carry:
  "(18446744073709551615 :: 64 word) > 0
   \<and> ''bytes='' @ decimal (unat (95 :: 64 word)) @ ''-''
        @ decimal (unat (95 :: 64 word) + unat (18446744073709551615 :: 64 word))
       = ''bytes=95-18446744073709551710''
   \<and> format_http_range (malloc_ok world_ok) 95 18446744073709551615
       = Inr (Some ''bytes=95-94'')
   \<and> s3r_read world_ok (Some handle_100) 95 18446744073709551615 False
       = Returns (SUCCEED, [Setopt_RANGE (Some ''95-94''), Perform,
                            Setopt_RANGE None, Setopt_HTTPHEADER None])"
proof -
  have h: "curlhandle handle_100 \<noteq> None" "purl handle_100 \<noteq> None"
    "signing_key_field handle_100 = None"
    "\<not> (95 > filesize handle_100 \<or> 95 + 18446744073709551615 > filesize handle_100)"
    by (simp_all add: handle_100_def)
  have w: "\<forall>v. malloc_ok world_ok v" "\<forall>c. curl_ok world_ok c"
    by (simp_all add: world_ok_def mem_ok_def)
  have d: "decimal (unat (95 :: 64 word)) = ''95''"
    "decimal (unat (95 + 18446744073709551615 :: 64 word)) = ''94''"
    by code_simp+
  have n: "unat (95 :: 64 word) + unat (18446744073709551615 :: 64 word) = 18446744073709551710"
    by simp
  have e: "decimal (18446744073709551710 :: nat) = ''18446744073709551710''"
    by (simp add: decimal.simps, code_simp)
  have p: "(18446744073709551615 :: 64 word) > 0" by simp
  have c: "''bytes='' @ decimal (unat (95 :: 64 word)) @ ''-''
        @ decimal (unat (95 :: 64 word) + unat (18446744073709551615 :: 64 word))
       = ''bytes=95-18446744073709551710''"
    using d(1) e unfolding n by simp
  have f: "format_http_range (malloc_ok world_ok) 95 18446744073709551615
       = Inr (Some ''bytes=95-94'')"
    using d by (simp add: format_http_range_def world_ok_def mem_ok_def)
  have r: "s3r_read world_ok (Some handle_100) 95 18446744073709551615 False
       = Returns (SUCCEED, [Setopt_RANGE (Some ''95-94''), Perform,
                            Setopt_RANGE None, Setopt_HTTPHEADER None])"
    using s3r_read_anonymous [OF h w, of False] d by (simp add: world_ok_def)
  from p c f r show ?thesis by (simp only: simp_thms)
qed



text \<open>The same read, computed: the range sent is "100-" and the request is performed.\<close>

lemma read_at_filesize_computed:
  "s3r_read world_ok (Some handle_100) 100 0 True
     = Returns (SUCCEED, [Setopt_WRITEDATA, Setopt_RANGE (Some ''100-''), Perform,
                          Setopt_RANGE None, Setopt_HTTPHEADER None])"
proof -
  have h: "curlhandle handle_100 \<noteq> None" "purl handle_100 \<noteq> None"
    "signing_key_field handle_100 = None"
    "\<not> (100 > filesize handle_100 \<or> 100 + 0 > filesize handle_100)"
    by (simp_all add: handle_100_def)
  have w: "\<forall>v. malloc_ok world_ok v" "\<forall>c. curl_ok world_ok c"
    by (simp_all add: world_ok_def mem_ok_def)
  have d: "decimal (unat (100 :: 64 word)) = ''100''" by code_simp
  from s3r_read_anonymous [OF h w, of True] d show ?thesis
    by (simp add: world_ok_def)
qed

end
